theory Spec2Isabelle
  imports Complex_Main "HOL-Library.Multiset"
begin

section \<open>JavaScript values used by the model\<close>

text \<open>
  A JavaScript number as the modelled code meets it: a finite value (a real here),
  \<open>NaN\<close>, or one of the two infinities.
\<close>

datatype number = NaN | NegInf | Num real | PosInf

text \<open>
  The subtraction \<open>a - b\<close> of two numbers, as the sort comparators use it. A sort uses
  only the sign of the result, and the rounding of a difference of two doubles keeps its
  sign, so the difference of two finite numbers is left exact.
\<close>

fun num_sub :: "number \<Rightarrow> number \<Rightarrow> number" where
  "num_sub (Num a) (Num b) = Num (a - b)"
| "num_sub NaN _ = NaN"
| "num_sub _ NaN = NaN"
| "num_sub PosInf PosInf = NaN"
| "num_sub NegInf NegInf = NaN"
| "num_sub PosInf _ = PosInf"
| "num_sub NegInf _ = NegInf"
| "num_sub (Num a) PosInf = NegInf"
| "num_sub (Num a) NegInf = PosInf"

text \<open>
  The sum \<open>a + b\<close> and the product \<open>a * b\<close> of two numbers. The numbers of the language
  are doubles: the result on two finite numbers is the exact result rounded to a double,
  or an infinity when it is too large. The parameter \<open>to_double\<close> stands for this
  rounding, of which nothing is assumed.
\<close>

fun num_add :: "(real \<Rightarrow> number) \<Rightarrow> number \<Rightarrow> number \<Rightarrow> number" where
  "num_add to_double (Num a) (Num b) = to_double (a + b)"
| "num_add to_double NaN _ = NaN"
| "num_add to_double _ NaN = NaN"
| "num_add to_double PosInf NegInf = NaN"
| "num_add to_double NegInf PosInf = NaN"
| "num_add to_double PosInf _ = PosInf"
| "num_add to_double NegInf _ = NegInf"
| "num_add to_double (Num a) PosInf = PosInf"
| "num_add to_double (Num a) NegInf = NegInf"

fun num_mul :: "(real \<Rightarrow> number) \<Rightarrow> number \<Rightarrow> number \<Rightarrow> number" where
  "num_mul to_double (Num a) (Num b) = to_double (a * b)"
| "num_mul to_double NaN _ = NaN"
| "num_mul to_double _ NaN = NaN"
| "num_mul to_double PosInf PosInf = PosInf"
| "num_mul to_double PosInf NegInf = NegInf"
| "num_mul to_double NegInf PosInf = NegInf"
| "num_mul to_double NegInf NegInf = PosInf"
| "num_mul to_double PosInf (Num b) = (if b = 0 then NaN else if 0 < b then PosInf else NegInf)"
| "num_mul to_double NegInf (Num b) = (if b = 0 then NaN else if 0 < b then NegInf else PosInf)"
| "num_mul to_double (Num a) PosInf = (if a = 0 then NaN else if 0 < a then PosInf else NegInf)"
| "num_mul to_double (Num a) NegInf = (if a = 0 then NaN else if 0 < a then NegInf else PosInf)"

text \<open>A string is truthy when it is present and not empty.\<close>

definition truthy :: "string option \<Rightarrow> bool" where
  "truthy s = (case s of None \<Rightarrow> False | Some v \<Rightarrow> v \<noteq> [])"

text \<open>\<open>s || d\<close> for an optional string \<open>s\<close>.\<close>

definition or_else :: "string option \<Rightarrow> string \<Rightarrow> string" where
  "or_else s d = (case s of None \<Rightarrow> d | Some v \<Rightarrow> if v = [] then d else v)"

text \<open>
  The built-in \<open>toUpperCase\<close> of strings is not defined here: every function that calls
  it takes it as the parameter \<open>toUpperCase\<close>, so that nothing is assumed of it (it may
  change the length of a text), and a property that needs a fact about it says so.
\<close>

definition is_digit :: "char \<Rightarrow> bool" where
  "is_digit c = (let n = (of_char c :: nat) in 48 \<le> n \<and> n \<le> 57)"

definition is_upper_letter :: "char \<Rightarrow> bool" where
  "is_upper_letter c = (let n = (of_char c :: nat) in 65 \<le> n \<and> n \<le> 90)"

text \<open>\<open>String(n)\<close> for a natural number: its decimal digits.\<close>

definition digit_char :: "nat \<Rightarrow> char" where
  "digit_char d = char_of (48 + d)"

function String_of :: "nat \<Rightarrow> string" where
  "String_of n = (if n < 10 then [digit_char n] else String_of (n div 10) @ [digit_char (n mod 10)])"
  by pat_completeness auto
termination
  by (relation "measure id") auto

declare String_of.simps [simp del]

text \<open>
  \<open>xs.slice(start, end)\<close>: a negative index counts from the end, and both indices are
  clamped to the array.
\<close>

definition js_slice :: "'a list \<Rightarrow> int \<Rightarrow> int \<Rightarrow> 'a list" where
  "js_slice xs start fin =
     (let len = int (length xs);
          k = (if start < 0 then max (len + start) 0 else min start len);
          final = (if fin < 0 then max (len + fin) 0 else min fin len)
      in take (nat (final - k)) (drop (nat k) xs))"

text \<open>
  \<open>xs.sort(cmp)\<close>. The language makes the sort stable, so for a comparator that is a
  consistent ordering the result is the one stable arrangement; it is modelled as a
  stable insertion sort. A comparator value that is \<open>NaN\<close> counts as zero. (For a
  comparator that is not a consistent ordering the language leaves the order to the
  implementation.)
\<close>

fun not_after :: "number \<Rightarrow> bool" where
  "not_after (Num v) = (v \<le> 0)"
| "not_after NaN = True"
| "not_after NegInf = True"
| "not_after PosInf = False"

fun js_insert :: "('a \<Rightarrow> 'a \<Rightarrow> number) \<Rightarrow> 'a \<Rightarrow> 'a list \<Rightarrow> 'a list" where
  "js_insert cmp x [] = [x]"
| "js_insert cmp x (y # ys) =
     (if not_after (cmp x y) then x # y # ys else y # js_insert cmp x ys)"

definition js_sort :: "('a \<Rightarrow> 'a \<Rightarrow> number) \<Rightarrow> 'a list \<Rightarrow> 'a list" where
  "js_sort cmp xs = foldr (js_insert cmp) xs []"

text \<open>
  \<open>for (let i = 0; i < n; i++) body\<close> over a state: the body runs for
  \<open>i = 0, 1, ...\<close> while \<open>i < n\<close>.
\<close>

definition for_upto :: "int \<Rightarrow> (nat \<Rightarrow> 's \<Rightarrow> 's) \<Rightarrow> 's \<Rightarrow> 's" where
  "for_upto n body s = fold body [0..<nat n] s"

section \<open>Token cache (src/lib/services/amadeus-auth.ts)\<close>

text \<open>
  The module-level variable \<open>tokenCache\<close> is either \<open>null\<close> or an object with the
  fields \<open>token\<close> and \<open>expiresAt\<close> (milliseconds since the epoch). It is modelled
  as a \<open>tokenCache option\<close> that \<open>getAccessToken\<close> takes and returns.
\<close>

record tokenCache =
  token :: string
  expiresAt :: int

text \<open>
  What the credential exchange (the \<open>fetch\<close> of \<open>/v1/security/oauth2/token\<close>) can
  do: the call itself throws, the response is not \<open>ok\<close>, or the response carries
  \<open>access_token\<close> and \<open>expires_in\<close> (seconds).
\<close>

datatype token_exchange =
    ExchangeThrows
  | ExchangeNotOk int string
  | Granted string int

datatype auth_error = AuthNetworkError | AuthFailed int string

text \<open>
  The result of one call: the returned token or the thrown error, the cache after the
  call, and whether the credential exchange was performed.
\<close>

record token_call =
  returned :: "auth_error + string"
  cache_after :: "tokenCache option"
  exchanged :: bool

definition request_new_token :: "int \<Rightarrow> token_exchange \<Rightarrow> tokenCache option \<Rightarrow> token_call" where
  "request_new_token now exchange cache =
     (case exchange of
        ExchangeThrows \<Rightarrow>
          \<lparr>returned = Inl AuthNetworkError, cache_after = cache, exchanged = True\<rparr>
      | ExchangeNotOk st txt \<Rightarrow>
          \<lparr>returned = Inl (AuthFailed st txt), cache_after = cache, exchanged = True\<rparr>
      | Granted access_token expires_in \<Rightarrow>
          \<lparr>returned = Inr access_token,
           cache_after = Some \<lparr>token = access_token, expiresAt = now + expires_in * 1000\<rparr>,
           exchanged = True\<rparr>)"

definition getAccessToken :: "int \<Rightarrow> token_exchange \<Rightarrow> tokenCache option \<Rightarrow> token_call" where
  "getAccessToken now exchange cache =
     (case cache of
        Some c \<Rightarrow>
          if expiresAt c > now + 300000
          then \<lparr>returned = Inr (token c), cache_after = cache, exchanged = False\<rparr>
          else request_new_token now exchange cache
      | None \<Rightarrow> request_new_token now exchange cache)"

section \<open>Retrying fetch client (amadeus-fetch, src/unnamed/part\_002)\<close>

text \<open>
  Of a response the client reads the status and the \<open>Retry-After\<close> header
  (\<open>resp.headers.get('Retry-After')\<close>, \<open>null\<close> when absent).
\<close>

record response =
  status :: int
  retryAfter :: "string option"

definition ok :: "response \<Rightarrow> bool" where
  "ok resp = (200 \<le> status resp \<and> status resp \<le> 299)"

definition isAuthError :: "int \<Rightarrow> bool" where
  "isAuthError st = (st = 401 \<or> st = 403)"

definition isRetriableStatus :: "int \<Rightarrow> bool" where
  "isRetriableStatus st = (st \<ge> 500 \<or> st = 408 \<or> st = 429)"

text \<open>
  \<open>computeBackoffMs(attempt, retryAfterHeader)\<close>. The built-in \<open>Number\<close> (string to
  number) is a parameter, and \<open>rnd\<close> is the value of \<open>Math.random()\<close>.
\<close>

definition exponential_backoff :: "real \<Rightarrow> nat \<Rightarrow> real" where
  "exponential_backoff rnd attempt =
     (let base = 400; jitter = of_int \<lfloor>rnd * 150\<rfloor>
      in min 5000 (base * 2 ^ attempt + jitter))"

definition computeBackoffMs :: "(string \<Rightarrow> number) \<Rightarrow> real \<Rightarrow> nat \<Rightarrow> string option \<Rightarrow> real" where
  "computeBackoffMs Number rnd attempt retryAfterHeader =
     (if truthy retryAfterHeader
      then (case Number (or_else retryAfterHeader []) of
              Num secs \<Rightarrow>
                if secs \<ge> 0 then min 5000 (max 500 (secs * 1000))
                else exponential_backoff rnd attempt
            | PosInf \<Rightarrow> 5000
            | NegInf \<Rightarrow> exponential_backoff rnd attempt
            | NaN \<Rightarrow> exponential_backoff rnd attempt)
      else exponential_backoff rnd attempt)"

text \<open>
  What one pass of the loop of \<open>amadeusFetch\<close> meets: \<open>getAccessToken\<close> throws (outside
  the \<open>try\<close>, so the error leaves the function), \<open>fetch\<close> throws (a network error),
  or \<open>fetch\<close> gives a response. The environment \<open>env\<close> gives the outcome of pass
  number \<open>attempt\<close>; every pass but the last increments \<open>attempt\<close>, so the pass number is
  the value of the variable \<open>attempt\<close>.
\<close>

datatype attempt_outcome = TokenFails auth_error | FetchThrows | Responds response

datatype fetch_error = TokenError auth_error | NetworkError

text \<open>
  The run of \<open>amadeusFetch\<close>: what it returns or throws, the value of \<open>attempt\<close> at
  that point (so \<open>attempt + 1\<close> calls were started), and the delays it slept.
\<close>

record fetch_run =
  outcome :: "fetch_error + response"
  last_attempt :: nat
  slept :: "real list"

function amadeusFetch_loop ::
  "(string \<Rightarrow> number) \<Rightarrow> (nat \<Rightarrow> real) \<Rightarrow> (nat \<Rightarrow> attempt_outcome) \<Rightarrow> int \<Rightarrow> nat \<Rightarrow> real list
     \<Rightarrow> fetch_run" where
  "amadeusFetch_loop Number rnd env maxRetries attempt delays =
     (case env attempt of
        TokenFails e \<Rightarrow>
          \<lparr>outcome = Inl (TokenError e), last_attempt = attempt, slept = delays\<rparr>
      | FetchThrows \<Rightarrow>
          if int attempt < maxRetries
          then amadeusFetch_loop Number rnd env maxRetries (Suc attempt)
                 (delays @ [computeBackoffMs Number (rnd attempt) attempt None])
          else \<lparr>outcome = Inl NetworkError, last_attempt = attempt, slept = delays\<rparr>
      | Responds resp \<Rightarrow>
          if ok resp
          then \<lparr>outcome = Inr resp, last_attempt = attempt, slept = delays\<rparr>
          else if isAuthError (status resp)
          then \<lparr>outcome = Inr resp, last_attempt = attempt, slept = delays\<rparr>
          else if isRetriableStatus (status resp) \<and> int attempt < maxRetries
          then amadeusFetch_loop Number rnd env maxRetries (Suc attempt)
                 (delays @ [computeBackoffMs Number (rnd attempt) attempt (retryAfter resp)])
          else \<lparr>outcome = Inr resp, last_attempt = attempt, slept = delays\<rparr>)"
  by pat_completeness auto
termination
  by (relation "measure (\<lambda>(Number, rnd, env, maxRetries, attempt, delays). nat (maxRetries - int attempt))")
     auto

declare amadeusFetch_loop.simps [simp del]

text \<open>\<open>init.maxRetries ?? 3\<close>, then the loop from \<open>attempt = 0\<close>.\<close>

definition amadeusFetch ::
  "(string \<Rightarrow> number) \<Rightarrow> (nat \<Rightarrow> real) \<Rightarrow> (nat \<Rightarrow> attempt_outcome) \<Rightarrow> int option \<Rightarrow> fetch_run" where
  "amadeusFetch Number rnd env init_maxRetries =
     (let maxRetries = (case init_maxRetries of None \<Rightarrow> 3 | Some m \<Rightarrow> m)
      in amadeusFetch_loop Number rnd env maxRetries 0 [])"

section \<open>Search request builder (flight-request-builder-simple, src/unnamed/part\_003)\<close>

datatype TripType = one_way | return_trip | multi_trip

datatype TravelClass = ECONOMY | PREMIUM_ECONOMY | BUSINESS | FIRST

datatype TravelerType = ADULT | CHILD | HELD_INFANT | SEATED_INFANT

datatype Coverage = MOST_SEGMENTS | ALL_SEGMENTS

record Location =
  iataCode :: string
  name :: string
  city :: "string option"
  country :: "string option"

text \<open>The passenger counts are JavaScript numbers; the model takes them as integers.\<close>

record Passengers =
  adults :: int
  children :: int
  infants :: int

text \<open>
  The declared type of a segment makes its three fields mandatory, but the builder tests
  each of them for truthiness, so the model lets them be absent.
\<close>

record TripSegment =
  seg_origin :: "Location option"
  seg_destination :: "Location option"
  seg_departureDate :: "string option"

record FlightSearchParams =
  tripType :: TripType
  origin :: "Location option"
  destination :: "Location option"
  departureDate :: "string option"
  returnDate :: "string option"
  segments :: "TripSegment list option"
  passengers :: Passengers
  travelClass :: TravelClass
  currency :: "string option"
  maxOffers :: "int option"

text \<open>An entry of \<open>originDestinations\<close>; \<open>od_date\<close> is \<open>departureDateTimeRange.date\<close>.\<close>

record originDestination =
  od_id :: string
  originLocationCode :: string
  destinationLocationCode :: string
  od_date :: string

record traveler =
  traveler_id :: string
  travelerType :: TravelerType
  associatedAdultId :: "string option"

record cabinRestriction =
  cabin :: TravelClass
  coverage :: Coverage
  originDestinationIds :: "string list"

text \<open>
  The request; \<open>maxFlightOffers\<close> and \<open>cabinRestrictions\<close> are the fields of
  \<open>searchCriteria\<close> and of its \<open>flightFilters\<close>.
\<close>

record FlightOffersSearchRequest =
  currencyCode :: string
  originDestinations :: "originDestination list"
  travelers :: "traveler list"
  sources :: "string list"
  maxFlightOffers :: int
  cabinRestrictions :: "cabinRestriction list"

text \<open>The variables the three traveler loops update.\<close>

record traveler_vars =
  travelerId :: nat
  adultIds :: "string list"
  travelers_so_far :: "traveler list"

definition add_adult :: "nat \<Rightarrow> traveler_vars \<Rightarrow> traveler_vars" where
  "add_adult i v =
     (let adultId = String_of (travelerId v)
      in \<lparr>travelerId = travelerId v + 1,
          adultIds = adultIds v @ [adultId],
          travelers_so_far = travelers_so_far v @
            [\<lparr>traveler_id = adultId, travelerType = ADULT, associatedAdultId = None\<rparr>]\<rparr>)"

definition add_child :: "nat \<Rightarrow> traveler_vars \<Rightarrow> traveler_vars" where
  "add_child i v =
     v\<lparr>travelerId := travelerId v + 1,
       travelers_so_far := travelers_so_far v @
         [\<lparr>traveler_id = String_of (travelerId v), travelerType = CHILD,
           associatedAdultId = None\<rparr>]\<rparr>"

text \<open>
  \<open>adultIds[i % adultIds.length]\<close>: with no adult the index is \<open>NaN\<close> and the read gives
  \<open>undefined\<close>.
\<close>

definition add_infant :: "nat \<Rightarrow> traveler_vars \<Rightarrow> traveler_vars" where
  "add_infant i v =
     (let associated =
            (if adultIds v = [] then None
             else Some (adultIds v ! (i mod length (adultIds v))))
      in v\<lparr>travelerId := travelerId v + 1,
           travelers_so_far := travelers_so_far v @
             [\<lparr>traveler_id = String_of (travelerId v), travelerType = HELD_INFANT,
               associatedAdultId = associated\<rparr>]\<rparr>)"

definition build_travelers :: "Passengers \<Rightarrow> traveler list" where
  "build_travelers p =
     (let v0 = \<lparr>travelerId = 1, adultIds = [], travelers_so_far = []\<rparr>;
          v1 = for_upto (adults p) add_adult v0;
          v2 = for_upto (children p) add_child v1;
          v3 = for_upto (infants p) add_infant v2
      in travelers_so_far v3)"

text \<open>
  Reading \<open>.iataCode\<close> of an absent location, or \<open>.slice\<close> of an absent date, would
  throw a \<open>TypeError\<close>; the model keeps that branch, so that the absence of a throw is
  a property to prove.
\<close>

datatype js_error = TypeError

definition keep_segment :: "TripSegment \<Rightarrow> bool" where
  "keep_segment segment =
     (seg_origin segment \<noteq> None \<and> seg_destination segment \<noteq> None
      \<and> truthy (seg_departureDate segment))"

definition segment_entry :: "(string \<Rightarrow> string) \<Rightarrow> nat \<Rightarrow> TripSegment \<Rightarrow> js_error + originDestination" where
  "segment_entry toUpperCase index segment =
     (case (seg_origin segment, seg_destination segment, seg_departureDate segment) of
        (Some org, Some dst, Some date) \<Rightarrow>
          Inr \<lparr>od_id = String_of (index + 1),
               originLocationCode = toUpperCase (iataCode org),
               destinationLocationCode = toUpperCase (iataCode dst),
               od_date = take 10 date\<rparr>
      | _ \<Rightarrow> Inl TypeError)"

text \<open>\<open>xs.map((segment, index) => ...)\<close> with a callback that may throw.\<close>

fun map_indexed :: "(nat \<Rightarrow> 'a \<Rightarrow> js_error + 'b) \<Rightarrow> nat \<Rightarrow> 'a list \<Rightarrow> js_error + 'b list" where
  "map_indexed f index [] = Inr []"
| "map_indexed f index (x # xs) =
     (case f index x of
        Inl e \<Rightarrow> Inl e
      | Inr y \<Rightarrow> (case map_indexed f (Suc index) xs of
                     Inl e \<Rightarrow> Inl e
                   | Inr ys \<Rightarrow> Inr (y # ys)))"

definition build_originDestinations :: "(string \<Rightarrow> string) \<Rightarrow> FlightSearchParams \<Rightarrow> js_error + originDestination list" where
  "build_originDestinations toUpperCase params =
     (if tripType params = multi_trip \<and> segments params \<noteq> None
      then map_indexed (segment_entry toUpperCase) 0
             (filter keep_segment (case segments params of None \<Rightarrow> [] | Some segs \<Rightarrow> segs))
      else if tripType params = one_way \<and> origin params \<noteq> None \<and> destination params \<noteq> None
              \<and> truthy (departureDate params)
      then (case (origin params, destination params, departureDate params) of
              (Some org, Some dst, Some dep) \<Rightarrow>
                Inr [\<lparr>od_id = ''1'',
                      originLocationCode = toUpperCase (iataCode org),
                      destinationLocationCode = toUpperCase (iataCode dst),
                      od_date = take 10 dep\<rparr>]
            | _ \<Rightarrow> Inl TypeError)
      else if tripType params = return_trip \<and> origin params \<noteq> None \<and> destination params \<noteq> None
              \<and> truthy (departureDate params) \<and> truthy (returnDate params)
      then (case (origin params, destination params, departureDate params, returnDate params) of
              (Some org, Some dst, Some dep, Some ret) \<Rightarrow>
                Inr [\<lparr>od_id = ''1'',
                      originLocationCode = toUpperCase (iataCode org),
                      destinationLocationCode = toUpperCase (iataCode dst),
                      od_date = take 10 dep\<rparr>,
                     \<lparr>od_id = ''2'',
                      originLocationCode = toUpperCase (iataCode dst),
                      destinationLocationCode = toUpperCase (iataCode org),
                      od_date = take 10 ret\<rparr>]
            | _ \<Rightarrow> Inl TypeError)
      else Inr [])"

text \<open>\<open>params.maxOffers || 50\<close>: an absent or zero value gives 50.\<close>

definition buildFlightOffersSearchRequest :: "(string \<Rightarrow> string) \<Rightarrow> FlightSearchParams \<Rightarrow> js_error + FlightOffersSearchRequest" where
  "buildFlightOffersSearchRequest toUpperCase params =
     (let trav = build_travelers (passengers params)
      in case build_originDestinations toUpperCase params of
           Inl e \<Rightarrow> Inl e
         | Inr ods \<Rightarrow>
             (let ids = map od_id ods
              in Inr \<lparr>currencyCode = or_else (currency params) ''NGN'',
                      originDestinations = ods,
                      travelers = trav,
                      sources = [''GDS''],
                      maxFlightOffers =
                        (case maxOffers params of
                           None \<Rightarrow> 50
                         | Some m \<Rightarrow> if m = 0 then 50 else m),
                      cabinRestrictions =
                        [\<lparr>cabin = travelClass params, coverage = MOST_SEGMENTS,
                          originDestinationIds = ids\<rparr>]\<rparr>))"

text \<open>
  \<open>parseDate\<close>: the parameter \<open>toISO\<close> stands for \<open>new Date(s).toISOString()\<close>, with
  \<open>None\<close> for an invalid date; the result is the part before the first \<open>T\<close>.
\<close>

definition parseDate :: "(string \<Rightarrow> string option) \<Rightarrow> string \<Rightarrow> string option" where
  "parseDate toISO dateString =
     (case toISO dateString of
        None \<Rightarrow> None
      | Some isoString \<Rightarrow> Some (takeWhile (\<lambda>c. c \<noteq> CHR ''T'') isoString))"

section \<open>The flight search tool (flight-assistant route, src/unnamed/part\_000)\<close>

text \<open>The arguments of the tool \<open>getFlightOffers\<close>, after the schema's defaults.\<close>

record segment_args =
  arg_seg_origin :: string
  arg_seg_destination :: string
  arg_seg_departureDate :: string

record search_args =
  arg_tripType :: TripType
  arg_origin :: "string option"
  arg_destination :: "string option"
  arg_departureDate :: "string option"
  arg_returnDate :: "string option"
  arg_segments :: "segment_args list option"
  arg_adults :: int
  arg_children :: int
  arg_infants :: int
  arg_travelClass :: TravelClass
  arg_currency :: string
  arg_maxOffers :: int

text \<open>\<open>/^[A-Z]{3}$/.test(code.toUpperCase())\<close>\<close>

definition iata_test :: "(string \<Rightarrow> string) \<Rightarrow> string \<Rightarrow> bool" where
  "iata_test toUpperCase code = (length (toUpperCase code) = 3 \<and> list_all is_upper_letter (toUpperCase code))"

definition blank_location :: "(string \<Rightarrow> string) \<Rightarrow> string \<Rightarrow> Location" where
  "blank_location toUpperCase code = \<lparr>iataCode = toUpperCase code, name = [], city = Some [], country = Some []\<rparr>"

definition iata_hint :: string where
  "iata_hint = ''. Use 3-letter codes like LOS, LON, NYC''"

text \<open>
  The loop over the segments of a multi-trip: the first invalid field ends the tool with
  its error message, otherwise the segment joins \<open>tripSegments\<close>.
\<close>

fun check_segments :: "(string \<Rightarrow> string) \<Rightarrow> (string \<Rightarrow> string option) \<Rightarrow> segment_args list \<Rightarrow> string + TripSegment list" where
  "check_segments toUpperCase toISO [] = Inr []"
| "check_segments toUpperCase toISO (segment # rest) =
     (if \<not> iata_test toUpperCase (arg_seg_origin segment)
      then Inl (''Invalid origin IATA code: '' @ arg_seg_origin segment @ iata_hint)
      else if \<not> iata_test toUpperCase (arg_seg_destination segment)
      then Inl (''Invalid destination IATA code: '' @ arg_seg_destination segment @ iata_hint)
      else if \<not> truthy (parseDate toISO (arg_seg_departureDate segment))
      then Inl (''Invalid departure date: '' @ arg_seg_departureDate segment
                  @ ''. Use YYYY-MM-DD format.'')
      else (case check_segments toUpperCase toISO rest of
              Inl e \<Rightarrow> Inl e
            | Inr tripSegments \<Rightarrow>
                Inr (\<lparr>seg_origin = Some (blank_location toUpperCase (arg_seg_origin segment)),
                      seg_destination = Some (blank_location toUpperCase (arg_seg_destination segment)),
                      seg_departureDate = parseDate toISO (arg_seg_departureDate segment)\<rparr>
                     # tripSegments)))"

definition passengers_of :: "search_args \<Rightarrow> Passengers" where
  "passengers_of args =
     \<lparr>adults = arg_adults args, children = arg_children args, infants = arg_infants args\<rparr>"

text \<open>
  The validation of \<open>execute\<close>: an error message (the tool returns
  \<open>success: false\<close> with it) or the \<open>searchParams\<close> handed to the builder.
\<close>

definition validate_search :: "(string \<Rightarrow> string) \<Rightarrow> (string \<Rightarrow> string option) \<Rightarrow> search_args \<Rightarrow> string + FlightSearchParams" where
  "validate_search toUpperCase toISO args =
     (if arg_tripType args = multi_trip
      then (case arg_segments args of
              None \<Rightarrow> Inl ''Multi-trip requires segments with origin, destination, and departure date for each leg''
            | Some segs \<Rightarrow>
                if segs = []
                then Inl ''Multi-trip requires segments with origin, destination, and departure date for each leg''
                else (case check_segments toUpperCase toISO segs of
                        Inl e \<Rightarrow> Inl e
                      | Inr tripSegments \<Rightarrow>
                          Inr \<lparr>tripType = arg_tripType args, origin = None, destination = None,
                               departureDate = None, returnDate = None,
                               segments = Some tripSegments,
                               passengers = passengers_of args,
                               travelClass = arg_travelClass args,
                               currency = Some (arg_currency args),
                               maxOffers = Some (arg_maxOffers args)\<rparr>))
      else if \<not> truthy (arg_origin args) \<or> \<not> truthy (arg_destination args)
              \<or> \<not> truthy (arg_departureDate args)
      then Inl ''Origin, destination, and departure date are required for one-way and return trips''
      else if \<not> iata_test toUpperCase (or_else (arg_origin args) [])
      then Inl (''Invalid origin IATA code: '' @ or_else (arg_origin args) [] @ iata_hint)
      else if \<not> iata_test toUpperCase (or_else (arg_destination args) [])
      then Inl (''Invalid destination IATA code: '' @ or_else (arg_destination args) [] @ iata_hint)
      else if \<not> truthy (parseDate toISO (or_else (arg_departureDate args) []))
      then Inl (''Invalid departure date: '' @ or_else (arg_departureDate args) []
                  @ ''. Use YYYY-MM-DD format.'')
      else if arg_tripType args = return_trip \<and> \<not> truthy (arg_returnDate args)
      then Inl ''Return date is required for return trips.''
      else if arg_tripType args = return_trip
              \<and> \<not> truthy (parseDate toISO (or_else (arg_returnDate args) []))
      then Inl (''Invalid return date: '' @ or_else (arg_returnDate args) []
                  @ ''. Use YYYY-MM-DD format.'')
      else Inr \<lparr>tripType = arg_tripType args,
                origin = Some (blank_location toUpperCase (or_else (arg_origin args) [])),
                destination = Some (blank_location toUpperCase (or_else (arg_destination args) [])),
                departureDate = parseDate toISO (or_else (arg_departureDate args) []),
                returnDate =
                  (if arg_tripType args = return_trip
                   then parseDate toISO (or_else (arg_returnDate args) [])
                   else None),
                segments = None,
                passengers = passengers_of args,
                travelClass = arg_travelClass args,
                currency = Some (arg_currency args),
                maxOffers = Some (arg_maxOffers args)\<rparr>)"

text \<open>
  \<open>execute\<close> up to the network call: either the tool answers with an error before any
  call (\<open>Rejected\<close>), or it calls \<open>searchFlightOffers\<close> with the built request. A throw
  of the builder is caught by the \<open>catch\<close> of \<open>execute\<close>.
\<close>

datatype search_step = Rejected string | Searches FlightOffersSearchRequest

definition getFlightOffers :: "(string \<Rightarrow> string) \<Rightarrow> (string \<Rightarrow> string option) \<Rightarrow> search_args \<Rightarrow> search_step" where
  "getFlightOffers toUpperCase toISO args =
     (case validate_search toUpperCase toISO args of
        Inl e \<Rightarrow> Rejected e
      | Inr searchParams \<Rightarrow>
          (case buildFlightOffersSearchRequest toUpperCase searchParams of
             Inl TypeError \<Rightarrow> Rejected ''Unable to search flights at the moment. Please try again later.''
           | Inr searchRequest \<Rightarrow> Searches searchRequest))"

section \<open>Filter, sort and paginate (flight-offers-filter route and flight-offers-utils)\<close>

text \<open>Of an offer the engine reads the fields below.\<close>

record FlightSegment =
  carrierCode :: string
  departure_at :: string

record Itinerary =
  duration :: "string option"
  itinerary_segments :: "FlightSegment list"

record FlightOffer =
  offer_id :: string
  itineraries :: "Itinerary list"
  price_total :: string

subsection \<open>Stops and airlines\<close>

text \<open>The callback of \<open>every\<close>: the stop count of an itinerary against the bucket.\<close>

definition stops_match :: "string \<Rightarrow> Itinerary \<Rightarrow> bool" where
  "stops_match stopsFilter itinerary =
     (let stopCount = int (length (itinerary_segments itinerary)) - 1
      in if stopsFilter = ''nonstop'' then stopCount = 0
         else if stopsFilter = ''1-stop'' then stopCount = 1
         else if stopsFilter = ''2+-stops'' then stopCount \<ge> 2
         else True)"

definition filterByStops :: "FlightOffer list \<Rightarrow> string \<Rightarrow> FlightOffer list" where
  "filterByStops offers stopsFilter =
     filter (\<lambda>offer. list_all (stops_match stopsFilter) (itineraries offer)) offers"

definition filterByAirlines :: "(string \<Rightarrow> string) \<Rightarrow> FlightOffer list \<Rightarrow> string list \<Rightarrow> FlightOffer list" where
  "filterByAirlines toUpperCase offers airlines =
     (if length airlines = 0 then offers
      else filter (\<lambda>offer. list_ex (\<lambda>itinerary.
                     list_ex (\<lambda>segment. toUpperCase (carrierCode segment) \<in> set airlines)
                       (itinerary_segments itinerary))
                   (itineraries offer)) offers)"

subsection \<open>Durations\<close>

text \<open>
  \<open>duration.match(/PT(?:(\d+)H)?(?:(\d+)M)?/)\<close>. The pattern is not anchored and both
  groups are optional, so the match starts at the leftmost \<open>PT\<close> of the string and
  exists exactly when there is one. \<open>after_PT\<close> gives the text that follows it.
\<close>

fun after_PT :: "string \<Rightarrow> string option" where
  "after_PT (c # d # cs) =
     (if c = CHR ''P'' \<and> d = CHR ''T'' then Some cs else after_PT (d # cs))"
| "after_PT _ = None"

text \<open>
  \<open>(\d+)X\<close> at the start of a text: the longest run of digits, not empty, followed by
  the letter \<open>X\<close>; the result is the run and the text after the letter.
\<close>

definition digits_then :: "char \<Rightarrow> string \<Rightarrow> (string \<times> string) option" where
  "digits_then x s =
     (let ds = takeWhile is_digit s
      in case dropWhile is_digit s of
           [] \<Rightarrow> None
         | c # cs \<Rightarrow> if ds \<noteq> [] \<and> c = x then Some (ds, cs) else None)"

text \<open>The two groups of the match, \<open>None\<close> when there is no match.\<close>

definition match_PT :: "string \<Rightarrow> (string option \<times> string option) option" where
  "match_PT s =
     (case after_PT s of
        None \<Rightarrow> None
      | Some r \<Rightarrow>
          (case digits_then (CHR ''H'') r of
             Some (h, r') \<Rightarrow>
               (case digits_then (CHR ''M'') r' of
                  Some (m, r'') \<Rightarrow> Some (Some h, Some m)
                | None \<Rightarrow> Some (Some h, None))
           | None \<Rightarrow>
               (case digits_then (CHR ''M'') r of
                  Some (m, r'') \<Rightarrow> Some (None, Some m)
                | None \<Rightarrow> Some (None, None))))"

text \<open>
  The callback of \<open>reduce\<close> in \<open>getDuration\<close>. The parameter \<open>parseInt\<close> stands for
  \<open>parseInt(s, 10)\<close>, a number of the language; the running total (\<open>total\<close> in
  the source), \<open>hours\<close> and \<open>minutes\<close> are numbers, and the sum and the product are
  those of the language.
\<close>

definition add_duration ::
  "(string \<Rightarrow> number) \<Rightarrow> (real \<Rightarrow> number) \<Rightarrow> number \<Rightarrow> Itinerary \<Rightarrow> number" where
  "add_duration parseInt to_double running_total itinerary =
     (case match_PT (or_else (duration itinerary) []) of
        None \<Rightarrow> running_total
      | Some (g1, g2) \<Rightarrow>
          (let hours = (case g1 of None \<Rightarrow> Num 0 | Some h \<Rightarrow> parseInt h);
               minutes = (case g2 of None \<Rightarrow> Num 0 | Some m \<Rightarrow> parseInt m)
           in num_add to_double running_total
                (num_add to_double (num_mul to_double hours (Num 60)) minutes)))"

definition getDuration ::
  "(string \<Rightarrow> number) \<Rightarrow> (real \<Rightarrow> number) \<Rightarrow> FlightOffer \<Rightarrow> number" where
  "getDuration parseInt to_double offer =
     foldl (add_duration parseInt to_double) (Num 0) (itineraries offer)"

subsection \<open>Sorting\<close>

text \<open>
  \<open>new Date(offer.itineraries[0]?.segments[0]?.departure.at || 0).getTime()\<close>: the
  parameter \<open>getTime\<close> stands for \<open>new Date(s).getTime()\<close> on a string; a missing
  itinerary or segment, or an empty timestamp, gives \<open>new Date(0)\<close>.
\<close>

definition departure_time :: "(string \<Rightarrow> number) \<Rightarrow> FlightOffer \<Rightarrow> number" where
  "departure_time getTime offer =
     (case itineraries offer of
        [] \<Rightarrow> Num 0
      | itinerary # _ \<Rightarrow>
          (case itinerary_segments itinerary of
             [] \<Rightarrow> Num 0
           | segment # _ \<Rightarrow>
               if departure_at segment = [] then Num 0 else getTime (departure_at segment)))"

text \<open>
  \<open>sortOffers\<close> of the route; the built-ins \<open>parseFloat\<close>, \<open>parseInt\<close> and \<open>Date\<close> are
  the parameters \<open>parseFloat\<close>, \<open>parseInt\<close> and \<open>getTime\<close>.
\<close>

definition sortOffers ::
  "(string \<Rightarrow> number) \<Rightarrow> (string \<Rightarrow> number) \<Rightarrow> (real \<Rightarrow> number) \<Rightarrow> (string \<Rightarrow> number)
     \<Rightarrow> FlightOffer list \<Rightarrow> string \<Rightarrow> FlightOffer list" where
  "sortOffers parseFloat parseInt to_double getTime offers sortBy =
     (if sortBy = ''cheapest''
      then js_sort (\<lambda>a b. num_sub (parseFloat (price_total a)) (parseFloat (price_total b))) offers
      else if sortBy = ''fastest''
      then js_sort (\<lambda>a b. num_sub (getDuration parseInt to_double a)
                                    (getDuration parseInt to_double b)) offers
      else if sortBy = ''earliest''
      then js_sort (\<lambda>a b. num_sub (departure_time getTime a) (departure_time getTime b)) offers
      else offers)"

text \<open>\<open>filterFlightOffers\<close> of flight-offers-utils, with its optional filters.\<close>

record filters =
  airlines :: "string list option"
  stops :: "string option"
  sortBy :: "string option"

definition filterFlightOffers ::
  "(string \<Rightarrow> string) \<Rightarrow> (string \<Rightarrow> number) \<Rightarrow> (string \<Rightarrow> number) \<Rightarrow> (real \<Rightarrow> number)
     \<Rightarrow> (string \<Rightarrow> number) \<Rightarrow> FlightOffer list \<Rightarrow> filters \<Rightarrow> FlightOffer list" where
  "filterFlightOffers toUpperCase parseFloat parseInt to_double getTime offers fs =
     (let filtered1 =
            (case airlines fs of
               None \<Rightarrow> offers
             | Some codes \<Rightarrow>
                 if length codes > 0
                 then filter (\<lambda>offer. list_ex (\<lambda>itinerary.
                        list_ex (\<lambda>segment.
                            toUpperCase (carrierCode segment) \<in> set (map toUpperCase codes))
                          (itinerary_segments itinerary))
                      (itineraries offer)) offers
                 else offers);
          filtered2 =
            (if truthy (stops fs) \<and> stops fs \<noteq> Some ''any''
             then filter (\<lambda>offer. list_all (stops_match (or_else (stops fs) []))
                                     (itineraries offer)) filtered1
             else filtered1)
      in if truthy (sortBy fs)
         then sortOffers parseFloat parseInt to_double getTime filtered2 (or_else (sortBy fs) [])
         else filtered2)"

subsection \<open>Pagination\<close>

text \<open>
  \<open>Math.ceil(totalOffers / limit)\<close>: a division by zero gives \<open>Infinity\<close>, or \<open>NaN\<close>
  for \<open>0 / 0\<close>.
\<close>

definition ceil_pages :: "nat \<Rightarrow> int \<Rightarrow> number" where
  "ceil_pages totalOffers per_page =
     (if per_page = 0 then (if totalOffers = 0 then NaN else PosInf)
      else Num (of_int \<lceil>real totalOffers / real_of_int per_page\<rceil>))"

record pagination =
  page_data :: "FlightOffer list"
  page :: int
  limit :: int
  total_offers :: nat
  totalPages :: number

text \<open>The pagination of the \<open>GET\<close> handler of the route, on the filtered and sorted offers.\<close>

definition paginate :: "FlightOffer list \<Rightarrow> int \<Rightarrow> int \<Rightarrow> pagination" where
  "paginate filteredOffers pg per_page =
     (let totalOffers = length filteredOffers;
          startIndex = (pg - 1) * per_page;
          endIndex = startIndex + per_page
      in \<lparr>page_data = js_slice filteredOffers startIndex endIndex,
          page = pg, limit = per_page, total_offers = totalOffers,
          totalPages = ceil_pages totalOffers per_page\<rparr>)"

text \<open>
  The pagination of the tool \<open>filterFlightOffers\<close> of the assistant: an empty result
  returns early with \<open>page: 1, totalPages: 0, total: 0\<close>.
\<close>

definition tool_paginate :: "FlightOffer list \<Rightarrow> int \<Rightarrow> int \<Rightarrow> pagination" where
  "tool_paginate filteredOffers pg per_page =
     (if length filteredOffers = 0
      then \<lparr>page_data = [], page = 1, limit = per_page, total_offers = 0, totalPages = Num 0\<rparr>
      else paginate filteredOffers pg per_page)"

section \<open>Notions used to state the properties\<close>

text \<open>
  The outcomes that are to be tried again while retries are left: a network error, and
  a response with a status 5xx (500 or more), 408 or 429. Every other response, among
  them the 2xx, 401, 403 and the other 4xx, is not of this kind, nor is a failure of the
  token acquisition.
\<close>

definition retries :: "attempt_outcome \<Rightarrow> bool" where
  "retries out =
     (case out of
        TokenFails e \<Rightarrow> False
      | FetchThrows \<Rightarrow> True
      | Responds resp \<Rightarrow> 500 \<le> status resp \<or> status resp = 408 \<or> status resp = 429)"

text \<open>What the run gives when it ends on an outcome: a response is returned, an error thrown.\<close>

definition final_outcome :: "attempt_outcome \<Rightarrow> fetch_error + response" where
  "final_outcome out =
     (case out of
        TokenFails e \<Rightarrow> Inl (TokenError e)
      | FetchThrows \<Rightarrow> Inl NetworkError
      | Responds resp \<Rightarrow> Inr resp)"


text \<open>
  A valid IATA code is three upper-case letters; a valid date is the \<open>YYYY-MM-DD\<close> text
  that \<open>parseDate\<close> gives, of which the properties use that it is not empty and has at
  most ten characters.
\<close>

definition valid_iata :: "string \<Rightarrow> bool" where
  "valid_iata code = (length code = 3 \<and> list_all is_upper_letter code)"

definition valid_date :: "string \<Rightarrow> bool" where
  "valid_date d = (d \<noteq> [] \<and> length d \<le> 10)"

text \<open>
  A date reads when \<open>Date\<close> takes it as a valid date and its ISO text has a date part
  (something before the \<open>T\<close>). A segment of a multi-trip is in order when its two codes,
  in upper case, are valid and its date reads.
\<close>

definition date_read :: "(string \<Rightarrow> string option) \<Rightarrow> string \<Rightarrow> bool" where
  "date_read toISO d =
     (case toISO d of
        None \<Rightarrow> False
      | Some isoString \<Rightarrow> takeWhile (\<lambda>c. c \<noteq> CHR ''T'') isoString \<noteq> [])"

definition segment_in_order ::
  "(string \<Rightarrow> string) \<Rightarrow> (string \<Rightarrow> string option) \<Rightarrow> segment_args \<Rightarrow> bool" where
  "segment_in_order toUpperCase toISO segment =
     (valid_iata (toUpperCase (arg_seg_origin segment))
      \<and> valid_iata (toUpperCase (arg_seg_destination segment))
      \<and> date_read toISO (arg_seg_departureDate segment))"

text \<open>
  What the one-way and return properties use of the built-in \<open>toUpperCase\<close>: a text of
  upper-case letters \<open>A\<close> to \<open>Z\<close> is left as it is.
\<close>

definition upper_case_kept :: "(string \<Rightarrow> string) \<Rightarrow> bool" where
  "upper_case_kept toUpperCase = (\<forall>s. list_all is_upper_letter s \<longrightarrow> toUpperCase s = s)"

text \<open>A number that is finite, and its value.\<close>

fun finite_number :: "number \<Rightarrow> bool" where
  "finite_number (Num v) = True"
| "finite_number _ = False"

fun value_of :: "number \<Rightarrow> real" where
  "value_of (Num v) = v"
| "value_of _ = 0"

text \<open>A text of decimal digits, not empty, and the natural number that it writes.\<close>

definition digits :: "string \<Rightarrow> bool" where
  "digits ds = (ds \<noteq> [] \<and> list_all is_digit ds)"

definition digit_value :: "char \<Rightarrow> nat" where
  "digit_value c = of_char c - 48"

definition decimal_value :: "string \<Rightarrow> nat" where
  "decimal_value ds = foldl (\<lambda>n c. 10 * n + digit_value c) 0 ds"

text \<open>
  The natural numbers up to \<open>2 ^ 53\<close> are doubles: the rounding leaves them as they
  are, and \<open>parseInt\<close> reads the digits of one as that number. Above \<open>2 ^ 53\<close> both
  round, and the properties of the durations say nothing.
\<close>

definition exact_naturals :: "(real \<Rightarrow> number) \<Rightarrow> bool" where
  "exact_naturals to_double = (\<forall>n::nat. n \<le> 2 ^ 53 \<longrightarrow> to_double (real n) = Num (real n))"

definition reads_decimal :: "(string \<Rightarrow> number) \<Rightarrow> bool" where
  "reads_decimal parseInt =
     (\<forall>ds. digits ds \<and> decimal_value ds \<le> 2 ^ 53 \<longrightarrow> parseInt ds = Num (real (decimal_value ds)))"

text \<open>
  An itinerary counts \<open>n\<close> minutes: the callback of \<open>getDuration\<close> adds \<open>n\<close> to a
  total, as long as the sum stays within \<open>2 ^ 53\<close>.
\<close>

definition adds_minutes ::
  "(string \<Rightarrow> number) \<Rightarrow> (real \<Rightarrow> number) \<Rightarrow> Itinerary \<Rightarrow> nat \<Rightarrow> bool" where
  "adds_minutes parseInt to_double itinerary n =
     (\<forall>t::nat. t + n \<le> 2 ^ 53 \<longrightarrow>
        add_duration parseInt to_double (Num (real t)) itinerary = Num (real (t + n)))"

section \<open>Inputs of the examples\<close>

text \<open>
  The built-ins \<open>Number\<close>, \<open>parseFloat\<close> and \<open>parseInt\<close> agree on a string of at most
  fifteen decimal digits with an optional minus sign, and give its value; the examples
  use \<open>decimal_Number\<close> on such strings only. Sums and products of the whole numbers of
  the examples are not rounded.
\<close>

definition no_rounding :: "real \<Rightarrow> number" where
  "no_rounding v = Num v"

definition decimal_Number :: "string \<Rightarrow> number" where
  "decimal_Number s =
     (case s of
        [] \<Rightarrow> NaN
      | c # ds \<Rightarrow>
          if c = CHR ''-'' \<and> ds \<noteq> [] \<and> list_all is_digit ds then Num (- real (decimal_value ds))
          else if list_all is_digit s then Num (real (decimal_value s))
          else NaN)"

text \<open>
  On a text of ASCII characters the built-in \<open>toUpperCase\<close> moves the letters \<open>a\<close> to
  \<open>z\<close> to \<open>A\<close> to \<open>Z\<close> and leaves every other character; the examples use
  \<open>ascii_toUpperCase\<close> on such texts only.
\<close>

definition upper_char :: "char \<Rightarrow> char" where
  "upper_char c =
     (let n = (of_char c :: nat) in if 97 \<le> n \<and> n \<le> 122 then char_of (n - 32) else c)"

definition ascii_toUpperCase :: "string \<Rightarrow> string" where
  "ascii_toUpperCase s = map upper_char s"

definition no_jitter :: "nat \<Rightarrow> real" where
  "no_jitter attempt = 0"

text \<open>A status 500, then a network error on every later call.\<close>

definition error_500_then_network_failure :: "nat \<Rightarrow> attempt_outcome" where
  "error_500_then_network_failure attempt =
     (if attempt = 0 then Responds \<lparr>status = 500, retryAfter = None\<rparr> else FetchThrows)"

text \<open>A status 500, then a status 200.\<close>

definition error_500_then_200 :: "nat \<Rightarrow> attempt_outcome" where
  "error_500_then_200 attempt =
     (if attempt = 0 then Responds \<lparr>status = 500, retryAfter = None\<rparr>
      else Responds \<lparr>status = 200, retryAfter = None\<rparr>)"

text \<open>Lagos and London Heathrow, one adult, and three trip specifications.\<close>

definition lagos :: Location where
  "lagos = \<lparr>iataCode = ''LOS'', name = [], city = Some [], country = Some []\<rparr>"

definition heathrow :: Location where
  "heathrow = \<lparr>iataCode = ''LHR'', name = [], city = Some [], country = Some []\<rparr>"

definition one_adult :: Passengers where
  "one_adult = \<lparr>adults = 1, children = 0, infants = 0\<rparr>"

definition one_way_spec :: FlightSearchParams where
  "one_way_spec =
     \<lparr>tripType = one_way, origin = Some lagos, destination = Some heathrow,
      departureDate = Some ''2025-03-10'', returnDate = None, segments = None,
      passengers = one_adult, travelClass = ECONOMY, currency = Some ''NGN'',
      maxOffers = Some 50\<rparr>"

definition return_spec :: FlightSearchParams where
  "return_spec =
     \<lparr>tripType = return_trip, origin = Some lagos, destination = Some heathrow,
      departureDate = Some ''2025-03-10'', returnDate = Some ''2025-03-20'', segments = None,
      passengers = one_adult, travelClass = BUSINESS, currency = Some ''NGN'',
      maxOffers = Some 50\<rparr>"


text \<open>
  On a date \<open>YYYY-MM-DD\<close>, \<open>new Date(s).toISOString()\<close> gives that date at midnight UTC.
\<close>

definition midnight_iso :: "string \<Rightarrow> string option" where
  "midnight_iso s = Some (s @ ''T00:00:00.000Z'')"

text \<open>A one-way search for one adult with three infants.\<close>

definition three_infants_one_adult :: search_args where
  "three_infants_one_adult =
     \<lparr>arg_tripType = one_way, arg_origin = Some ''LOS'', arg_destination = Some ''LHR'',
      arg_departureDate = Some ''2025-03-10'', arg_returnDate = None, arg_segments = None,
      arg_adults = 1, arg_children = 0, arg_infants = 3,
      arg_travelClass = ECONOMY, arg_currency = ''NGN'', arg_maxOffers = 50\<rparr>"

text \<open>An offer with a one-segment outbound itinerary and a two-segment return itinerary.\<close>

definition flight :: "string \<Rightarrow> string \<Rightarrow> FlightSegment" where
  "flight carrier departs = \<lparr>carrierCode = carrier, departure_at = departs\<rparr>"

definition mixed_offer :: FlightOffer where
  "mixed_offer =
     \<lparr>offer_id = ''1'',
      itineraries =
        [\<lparr>duration = Some ''PT6H30M'',
          itinerary_segments = [flight ''BA'' ''2025-03-10T10:00:00'']\<rparr>,
         \<lparr>duration = Some ''PT9H'',
          itinerary_segments = [flight ''AF'' ''2025-03-20T08:00:00'',
                                flight ''AF'' ''2025-03-20T13:00:00'']\<rparr>],
      price_total = ''500''\<rparr>"

text \<open>An offer that has only an identifier and a price.\<close>

definition priced :: "string \<Rightarrow> string \<Rightarrow> FlightOffer" where
  "priced ident price = \<lparr>offer_id = ident, itineraries = [], price_total = price\<rparr>"

text \<open>An offer that has only an identifier and one itinerary with a duration.\<close>

definition timed :: "string \<Rightarrow> string \<Rightarrow> FlightOffer" where
  "timed ident d =
     \<lparr>offer_id = ident,
      itineraries = [\<lparr>duration = Some d, itinerary_segments = []\<rparr>],
      price_total = ''0''\<rparr>"

text \<open>Twenty-three offers.\<close>

definition offers23 :: "FlightOffer list" where
  "offers23 = map (\<lambda>i. priced (String_of i) ''100'') [1..<24]"

section \<open>Token cache: refresh boundary\<close>

text \<open>
  Claim C8. \<open>getAccessToken\<close> answers from the cache, without a credential exchange,
  exactly when a token is cached and \<open>now + 5 minutes < expiresAt\<close>. In every other
  case it performs the exchange, and a granted token replaces the cache entry with
  the new token and the expiry \<open>now + expires_in\<close> (seconds turned into milliseconds).
  A cached token with 4 minutes of life left is refreshed, one with 6 minutes left is
  reused.
\<close>

theorem getAccessToken_refresh_boundary:
  "(exchanged (getAccessToken now ex cache) =
      (\<not> (\<exists>c. cache = Some c \<and> now + 300000 < expiresAt c)))
   \<and> (\<forall>c. cache = Some c \<and> now + 300000 < expiresAt c \<longrightarrow>
          getAccessToken now ex cache =
            \<lparr>returned = Inr (token c), cache_after = cache, exchanged = False\<rparr>)
   \<and> (\<not> (\<exists>c. cache = Some c \<and> now + 300000 < expiresAt c) \<longrightarrow>
          getAccessToken now (Granted tok secs) cache =
            \<lparr>returned = Inr tok,
             cache_after = Some \<lparr>token = tok, expiresAt = now + secs * 1000\<rparr>,
             exchanged = True\<rparr>)
   \<and> (\<forall>c. expiresAt c = now + 4 * 60000 \<longrightarrow>
          exchanged (getAccessToken now ex (Some c)))
   \<and> (\<forall>c. expiresAt c = now + 6 * 60000 \<longrightarrow>
          getAccessToken now ex (Some c) =
            \<lparr>returned = Inr (token c), cache_after = Some c, exchanged = False\<rparr>)"
  by (auto simp: getAccessToken_def request_new_token_def
           split: option.splits token_exchange.splits)

theorem getAccessToken_refresh_boundary_witness:
  "exchanged (getAccessToken 1000 (Granted ''new'' 1799) (Some \<lparr>token = ''old'', expiresAt = 241000\<rparr>))
   \<and> getAccessToken 1000 (Granted ''new'' 1799) (Some \<lparr>token = ''old'', expiresAt = 241000\<rparr>)
       = \<lparr>returned = Inr ''new'', cache_after = Some \<lparr>token = ''new'', expiresAt = 1800000\<rparr>,
          exchanged = True\<rparr>
   \<and> getAccessToken 1000 (Granted ''new'' 1799) (Some \<lparr>token = ''old'', expiresAt = 361000\<rparr>)
       = \<lparr>returned = Inr ''old'', cache_after = Some \<lparr>token = ''old'', expiresAt = 361000\<rparr>,
          exchanged = False\<rparr>"
  using getAccessToken_refresh_boundary
          [of 1000 "Granted ''new'' 1799" "Some \<lparr>token = ''old'', expiresAt = 241000\<rparr>" "''new''" 1799]
        getAccessToken_refresh_boundary
          [of 1000 "Granted ''new'' 1799" "Some \<lparr>token = ''old'', expiresAt = 361000\<rparr>" "''new''" 1799]
  by simp

section \<open>Retry delays\<close>







section \<open>Retry policy of the fetch client\<close>

lemma loop_retry:
  assumes "retries (env a)" "int a < mr"
  shows "\<exists>d. amadeusFetch_loop N rnd env mr a ds = amadeusFetch_loop N rnd env mr (Suc a) (ds @ [d])"
  using assms
  by (subst amadeusFetch_loop.simps)
     (auto simp: retries_def ok_def isAuthError_def isRetriableStatus_def
           split: attempt_outcome.splits)

lemma loop_stop:
  assumes "\<not> retries (env a) \<or> \<not> int a < mr"
  shows "amadeusFetch_loop N rnd env mr a ds =
           \<lparr>outcome = final_outcome (env a), last_attempt = a, slept = ds\<rparr>"
  using assms
  by (subst amadeusFetch_loop.simps)
     (auto simp: retries_def final_outcome_def ok_def isAuthError_def isRetriableStatus_def
           split: attempt_outcome.splits)

lemma loop_ends_at:
  assumes "a \<le> k"
    and "\<forall>i. a \<le> i \<and> i < k \<longrightarrow> retries (env i) \<and> int i < mr"
    and "\<not> retries (env k) \<or> \<not> int k < mr"
  shows "outcome (amadeusFetch_loop N rnd env mr a ds) = final_outcome (env k)
         \<and> last_attempt (amadeusFetch_loop N rnd env mr a ds) = k
         \<and> length (slept (amadeusFetch_loop N rnd env mr a ds)) = length ds + (k - a)"
  using assms
proof (induction "k - a" arbitrary: a ds)
  case 0
  then have "a = k" by simp
  with 0 show ?case by (simp add: loop_stop)
next
  case (Suc n)
  then have lt: "a < k" by simp
  with Suc.prems have r: "retries (env a)" "int a < mr" by auto
  obtain d where d: "amadeusFetch_loop N rnd env mr a ds
                       = amadeusFetch_loop N rnd env mr (Suc a) (ds @ [d])"
    using loop_retry[of env a mr N rnd ds] r by blast
  have "n = k - Suc a" using Suc.hyps(2) by simp
  moreover have "Suc a \<le> k" using lt by simp
  moreover have "\<forall>i. Suc a \<le> i \<and> i < k \<longrightarrow> retries (env i) \<and> int i < mr"
    using Suc.prems(2) by auto
  ultimately have "outcome (amadeusFetch_loop N rnd env mr (Suc a) (ds @ [d])) = final_outcome (env k)
         \<and> last_attempt (amadeusFetch_loop N rnd env mr (Suc a) (ds @ [d])) = k
         \<and> length (slept (amadeusFetch_loop N rnd env mr (Suc a) (ds @ [d]))) = length (ds @ [d]) + (k - Suc a)"
    using Suc.hyps(1)[of "Suc a" "ds @ [d]"] Suc.prems(3) by blast
  with d lt show ?case by simp
qed

text \<open>There is a first attempt at which the loop has to stop, within the retry budget.\<close>

lemma stop_exists:
  "\<exists>k. int k \<le> max mr 0 \<and> (\<forall>i<k. retries (env i) \<and> int i < mr)
       \<and> (\<not> retries (env k) \<or> \<not> int k < mr)"
proof -
  let ?P = "\<lambda>k. \<not> retries (env k) \<or> \<not> int k < mr"
  have ex: "?P (nat (max mr 0))" by auto
  define k where "k = (LEAST k. ?P k)"
  have Pk: "?P k" unfolding k_def using ex by (rule LeastI)
  have le: "k \<le> nat (max mr 0)" unfolding k_def using ex by (rule Least_le)
  have "\<forall>i<k. \<not> ?P i" unfolding k_def using not_less_Least by blast
  then have "\<forall>i<k. retries (env i) \<and> int i < mr" by blast
  with Pk le show ?thesis by (intro exI[of _ k]) auto
qed

lemma loop_from_start:
  "\<exists>k. int k \<le> max mr 0
       \<and> (\<forall>i<k. retries (env i))
       \<and> (retries (env k) \<longrightarrow> int k = max mr 0)
       \<and> last_attempt (amadeusFetch_loop N rnd env mr 0 []) = k
       \<and> length (slept (amadeusFetch_loop N rnd env mr 0 [])) = k
       \<and> outcome (amadeusFetch_loop N rnd env mr 0 []) = final_outcome (env k)"
proof -
  obtain k where k: "int k \<le> max mr 0" "\<forall>i<k. retries (env i) \<and> int i < mr"
      "\<not> retries (env k) \<or> \<not> int k < mr"
    using stop_exists[of mr env] by blast
  have "outcome (amadeusFetch_loop N rnd env mr 0 []) = final_outcome (env k)
         \<and> last_attempt (amadeusFetch_loop N rnd env mr 0 []) = k
         \<and> length (slept (amadeusFetch_loop N rnd env mr 0 [])) = length ([]::real list) + (k - 0)"
    by (rule loop_ends_at) (use k in auto)
  moreover have "retries (env k) \<longrightarrow> int k = max mr 0" using k by auto
  ultimately show ?thesis using k by (intro exI[of _ k]) auto
qed

text \<open>
  Claim C1, as amended. Let \<open>k\<close> be the value of \<open>attempt\<close> when \<open>amadeusFetch\<close> ends.
  Then \<open>k\<close> is at most \<open>maxRetries\<close>, every earlier attempt met a network error or a
  response with a status 5xx, 408 or 429, the run ends at the first attempt within the
  budget whose outcome is not of that kind, and it slept once per earlier attempt. A
  response met at attempt \<open>k\<close> is returned as it is, never thrown: a response whose
  status is below 500 and neither 408 nor 429 (a 2xx, a 401 or 403, any other 4xx) ends
  the run at once with that response, and a response with a status 5xx, 408 or 429 is
  returned only when \<open>k = maxRetries\<close>. The statuses that \<open>isAuthError\<close> singles out are
  401 and 403. The run throws a network error exactly when the
  network call of attempt \<open>k\<close> fails, and then \<open>k = maxRetries\<close>: the failure of the last
  permitted attempt, whatever the earlier attempts met. The only other throw is a
  failure of \<open>getAccessToken\<close>.
\<close>

theorem amadeusFetch_retry_policy:
  assumes "maxRetries = (case init of None \<Rightarrow> 3 | Some m \<Rightarrow> m)"
    and "run = amadeusFetch Number rnd env init"
    and "k = last_attempt run"
  shows "int k \<le> max maxRetries 0
       \<and> (\<forall>i<k. retries (env i))
       \<and> (\<forall>j. (\<forall>i<j. retries (env i)) \<and> \<not> retries (env j) \<and> int j \<le> max maxRetries 0
              \<longrightarrow> k = j)
       \<and> (\<forall>j resp. (\<forall>i<j. retries (env i)) \<and> int j \<le> max maxRetries 0
              \<and> env j = Responds resp
              \<and> status resp < 500 \<and> status resp \<noteq> 408 \<and> status resp \<noteq> 429
              \<longrightarrow> k = j \<and> outcome run = Inr resp)
       \<and> (\<forall>resp. env k = Responds resp
              \<and> (500 \<le> status resp \<or> status resp = 408 \<or> status resp = 429)
              \<longrightarrow> int k = max maxRetries 0 \<and> outcome run = Inr resp)
       \<and> (\<forall>st. isAuthError st = (st = 401 \<or> st = 403))
       \<and> length (slept run) = k
       \<and> (\<forall>resp. env k = Responds resp \<longrightarrow> outcome run = Inr resp)
       \<and> (\<forall>resp. outcome run = Inr resp \<longrightarrow> env k = Responds resp)
       \<and> (\<forall>resp. outcome run = Inr resp \<and> retries (env k) \<longrightarrow> int k = max maxRetries 0)
       \<and> (outcome run = Inl NetworkError \<longleftrightarrow> env k = FetchThrows)
       \<and> (outcome run = Inl NetworkError \<longrightarrow> int k = max maxRetries 0)
       \<and> (\<forall>e. outcome run = Inl (TokenError e) \<longleftrightarrow> env k = TokenFails e)"
proof -
  obtain j where j: "int j \<le> max maxRetries 0" "\<forall>i<j. retries (env i)"
     "retries (env j) \<longrightarrow> int j = max maxRetries 0"
     "last_attempt (amadeusFetch_loop Number rnd env maxRetries 0 []) = j"
     "length (slept (amadeusFetch_loop Number rnd env maxRetries 0 [])) = j"
     "outcome (amadeusFetch_loop Number rnd env maxRetries 0 []) = final_outcome (env j)"
    using loop_from_start[of maxRetries env Number rnd] by blast
  have run: "run = amadeusFetch_loop Number rnd env maxRetries 0 []"
    using assms(1,2) by (simp add: amadeusFetch_def)
  have kj: "k = j" using assms(3) run j(4) by simp
  have out: "outcome run = final_outcome (env k)" using run j(6) kj by simp
  have c1: "int k \<le> max maxRetries 0" using j(1) kj by simp
  have c2: "\<forall>i<k. retries (env i)" using j(2) kj by simp
  have c3: "length (slept run) = k" using j(5) kj run by simp
  have c4: "retries (env k) \<longrightarrow> int k = max maxRetries 0" using j(3) kj by simp
  have c5: "\<forall>resp. env k = Responds resp \<longrightarrow> outcome run = Inr resp"
    by (simp add: out final_outcome_def)
  have c6: "\<forall>resp. outcome run = Inr resp \<longrightarrow> env k = Responds resp"
    by (simp add: out final_outcome_def split: attempt_outcome.splits)
  have c7: "outcome run = Inl NetworkError \<longleftrightarrow> env k = FetchThrows"
    by (simp add: out final_outcome_def split: attempt_outcome.splits)
  have c8: "env k = FetchThrows \<longrightarrow> retries (env k)" by (simp add: retries_def)
  have c9: "\<forall>e. outcome run = Inl (TokenError e) \<longleftrightarrow> env k = TokenFails e"
    by (simp add: out final_outcome_def split: attempt_outcome.splits)
  have c10: "\<forall>j. (\<forall>i<j. retries (env i)) \<and> \<not> retries (env j) \<and> int j \<le> max maxRetries 0
              \<longrightarrow> k = j"
  proof (intro allI impI)
    fix j
    assume a: "(\<forall>i<j. retries (env i)) \<and> \<not> retries (env j) \<and> int j \<le> max maxRetries 0"
    show "k = j"
    proof (rule ccontr)
      assume "k \<noteq> j"
      then consider "k < j" | "j < k" by linarith
      then show False
      proof cases
        case 1
        with a have "retries (env k)" by blast
        with c4 have "int k = max maxRetries 0" by blast
        with a 1 show False by linarith
      next
        case 2
        with c2 have "retries (env j)" by blast
        with a show False by blast
      qed
    qed
  qed
  have c11: "\<forall>j resp. (\<forall>i<j. retries (env i)) \<and> int j \<le> max maxRetries 0
              \<and> env j = Responds resp
              \<and> status resp < 500 \<and> status resp \<noteq> 408 \<and> status resp \<noteq> 429
              \<longrightarrow> k = j \<and> outcome run = Inr resp"
  proof (intro allI impI)
    fix j resp
    assume a: "(\<forall>i<j. retries (env i)) \<and> int j \<le> max maxRetries 0
              \<and> env j = Responds resp
              \<and> status resp < 500 \<and> status resp \<noteq> 408 \<and> status resp \<noteq> 429"
    then have "\<not> retries (env j)" by (simp add: retries_def)
    with a c10 have kj: "k = j" by blast
    with a c5 show "k = j \<and> outcome run = Inr resp" by blast
  qed
  have c12: "\<forall>resp. env k = Responds resp
              \<and> (500 \<le> status resp \<or> status resp = 408 \<or> status resp = 429)
              \<longrightarrow> int k = max maxRetries 0 \<and> outcome run = Inr resp"
  proof (intro allI impI)
    fix resp
    assume a: "env k = Responds resp
              \<and> (500 \<le> status resp \<or> status resp = 408 \<or> status resp = 429)"
    then have "retries (env k)" by (simp add: retries_def)
    with c4 have "int k = max maxRetries 0" by blast
    moreover from a c5 have "outcome run = Inr resp" by blast
    ultimately show "int k = max maxRetries 0 \<and> outcome run = Inr resp" by blast
  qed
  have c13: "\<forall>st. isAuthError st = (st = 401 \<or> st = 403)"
    by (simp add: isAuthError_def)
  show ?thesis
    by (intro conjI c1 c2 c10 c11 c12 c13 c3 c5 c6 c7 c9) (use c4 c7 c8 in blast)+
qed

theorem amadeusFetch_retry_policy_witness:
  "int 1 \<le> max 3 0
   \<and> retries (error_500_then_200 0)
   \<and> outcome (amadeusFetch decimal_Number no_jitter error_500_then_200 None)
       = Inr \<lparr>status = 200, retryAfter = None\<rparr>
   \<and> length (slept (amadeusFetch decimal_Number no_jitter error_500_then_200 None)) = 1"
proof -
  have e: "amadeusFetch decimal_Number no_jitter error_500_then_200 None =
      \<lparr>outcome = Inr \<lparr>status = 200, retryAfter = None\<rparr>, last_attempt = 1, slept = [400]\<rparr>"
    by (simp add: amadeusFetch_def amadeusFetch_loop.simps error_500_then_200_def ok_def
          isAuthError_def isRetriableStatus_def computeBackoffMs_def truthy_def
          exponential_backoff_def no_jitter_def)
  have m: "(3::int) = (case (None::int option) of None \<Rightarrow> 3 | Some m \<Rightarrow> m)" by simp
  have k: "(1::nat) = last_attempt (amadeusFetch decimal_Number no_jitter error_500_then_200 None)"
    by (simp only: e fetch_run.simps)
  have r: "error_500_then_200 1 = Responds \<lparr>status = 200, retryAfter = None\<rparr>"
    by (simp add: error_500_then_200_def)
  note t = amadeusFetch_retry_policy[OF m refl k]
  from t have a: "int 1 \<le> max 3 0" by blast
  from t have "\<forall>i<1. retries (error_500_then_200 i)" by blast
  then have b: "retries (error_500_then_200 0)" by simp
  from t r have c: "outcome (amadeusFetch decimal_Number no_jitter error_500_then_200 None)
       = Inr \<lparr>status = 200, retryAfter = None\<rparr>" by blast
  from t have d: "length (slept (amadeusFetch decimal_Number no_jitter error_500_then_200 None)) = 1"
    by blast
  from a b c d show ?thesis by blast
qed

text \<open>
  The claim as first stated lets the client throw only when the network call fails on
  every one of the \<open>1 + maxRetries\<close> attempts. With \<open>maxRetries = 1\<close>, a status 500
  followed by a network error makes it throw, although the first attempt got a response.
\<close>

theorem amadeusFetch_throws_after_response_counterexample:
  "outcome (amadeusFetch decimal_Number no_jitter error_500_then_network_failure (Some 1))
     = Inl NetworkError
   \<and> error_500_then_network_failure 0 = Responds \<lparr>status = 500, retryAfter = None\<rparr>
   \<and> error_500_then_network_failure 0 \<noteq> FetchThrows"
  by (simp add: amadeusFetch_def amadeusFetch_loop.simps error_500_then_network_failure_def
        ok_def isAuthError_def isRetriableStatus_def)

section \<open>Travelers of the search request\<close>












section \<open>Origins and destinations of the search request\<close>

text \<open>A segment that passes the filter has the three fields the callback of \<open>map\<close> reads.\<close>

lemma segment_entry_kept:
  "keep_segment segment \<Longrightarrow> \<exists>od. segment_entry toUpperCase index segment = Inr od"
  by (cases "seg_origin segment"; cases "seg_destination segment";
      cases "seg_departureDate segment")
     (simp_all add: keep_segment_def segment_entry_def truthy_def)

lemma map_indexed_kept:
  "list_all keep_segment xs \<Longrightarrow>
     \<exists>ods. map_indexed (segment_entry toUpperCase) i xs = Inr ods \<and> length ods = length xs
       \<and> (\<forall>j<length xs. segment_entry toUpperCase (i + j) (xs ! j) = Inr (ods ! j))"
proof (induction xs arbitrary: i)
  case Nil
  then show ?case by simp
next
  case (Cons x xs)
  from Cons.prems have kx: "keep_segment x" and kxs: "list_all keep_segment xs" by simp_all
  from segment_entry_kept[OF kx, of toUpperCase i] obtain od where od: "segment_entry toUpperCase i x = Inr od"
    by blast
  from Cons.IH[OF kxs, of "Suc i"] obtain ods
    where ods: "map_indexed (segment_entry toUpperCase) (Suc i) xs = Inr ods"
     "length ods = length xs"
     "\<forall>j<length xs. segment_entry toUpperCase (Suc i + j) (xs ! j) = Inr (ods ! j)"
    by blast
  have "\<forall>j<length (x # xs). segment_entry toUpperCase (i + j) ((x # xs) ! j) = Inr ((od # ods) ! j)"
  proof (intro allI impI)
    fix j assume j: "j < length (x # xs)"
    show "segment_entry toUpperCase (i + j) ((x # xs) ! j) = Inr ((od # ods) ! j)"
    proof (cases j)
      case 0
      with od show ?thesis by simp
    next
      case (Suc m)
      with j have "m < length xs" by simp
      with ods(3) have "segment_entry toUpperCase (Suc i + m) (xs ! m) = Inr (ods ! m)" by blast
      with Suc show ?thesis by simp
    qed
  qed
  moreover have "map_indexed (segment_entry toUpperCase) i (x # xs) = Inr (od # ods)"
    using od ods(1) by simp
  moreover have "length (od # ods) = length (x # xs)" using ods(2) by simp
  ultimately show ?case by blast
qed

lemma od_multi:
  "tripType params = multi_trip \<Longrightarrow> segments params = Some segs \<Longrightarrow>
     build_originDestinations toUpperCase params = map_indexed (segment_entry toUpperCase) 0 (filter keep_segment segs)"
  by (simp add: build_originDestinations_def)

lemma od_multi_none:
  "tripType params = multi_trip \<Longrightarrow> segments params = None \<Longrightarrow>
     build_originDestinations toUpperCase params = Inr []"
  by (simp add: build_originDestinations_def)

lemma od_one_way:
  "tripType params = one_way \<Longrightarrow> origin params = Some org \<Longrightarrow> destination params = Some dst \<Longrightarrow>
   departureDate params = Some d \<Longrightarrow> d \<noteq> [] \<Longrightarrow>
     build_originDestinations toUpperCase params =
       Inr [\<lparr>od_id = ''1'', originLocationCode = toUpperCase (iataCode org),
             destinationLocationCode = toUpperCase (iataCode dst), od_date = take 10 d\<rparr>]"
  by (simp add: build_originDestinations_def truthy_def)

lemma od_one_way_unmet:
  assumes "tripType params = one_way"
    and "origin params = None \<or> destination params = None \<or> \<not> truthy (departureDate params)"
  shows "build_originDestinations toUpperCase params = Inr []"
  using assms(2)
proof (elim disjE)
  assume "origin params = None"
  with assms(1) show ?thesis by (simp add: build_originDestinations_def)
next
  assume "destination params = None"
  with assms(1) show ?thesis by (simp add: build_originDestinations_def)
next
  assume "\<not> truthy (departureDate params)"
  with assms(1) show ?thesis by (simp add: build_originDestinations_def)
qed

lemma od_return:
  "tripType params = return_trip \<Longrightarrow> origin params = Some org \<Longrightarrow> destination params = Some dst \<Longrightarrow>
   departureDate params = Some d1 \<Longrightarrow> d1 \<noteq> [] \<Longrightarrow> returnDate params = Some d2 \<Longrightarrow> d2 \<noteq> [] \<Longrightarrow>
     build_originDestinations toUpperCase params =
       Inr [\<lparr>od_id = ''1'', originLocationCode = toUpperCase (iataCode org),
             destinationLocationCode = toUpperCase (iataCode dst), od_date = take 10 d1\<rparr>,
            \<lparr>od_id = ''2'', originLocationCode = toUpperCase (iataCode dst),
             destinationLocationCode = toUpperCase (iataCode org), od_date = take 10 d2\<rparr>]"
  by (simp add: build_originDestinations_def truthy_def)

lemma od_return_unmet:
  assumes "tripType params = return_trip"
    and "origin params = None \<or> destination params = None \<or> \<not> truthy (departureDate params)
           \<or> \<not> truthy (returnDate params)"
  shows "build_originDestinations toUpperCase params = Inr []"
  using assms(2)
proof (elim disjE)
  assume "origin params = None"
  with assms(1) show ?thesis by (simp add: build_originDestinations_def)
next
  assume "destination params = None"
  with assms(1) show ?thesis by (simp add: build_originDestinations_def)
next
  assume "\<not> truthy (departureDate params)"
  with assms(1) show ?thesis by (simp add: build_originDestinations_def)
next
  assume "\<not> truthy (returnDate params)"
  with assms(1) show ?thesis by (simp add: build_originDestinations_def)
qed

lemma truthy_cases: "truthy s \<Longrightarrow> \<exists>v. s = Some v \<and> v \<noteq> []"
  by (cases s) (simp_all add: truthy_def)

lemma build_originDestinations_total:
  "\<exists>ods. build_originDestinations toUpperCase params = Inr ods"
proof (cases "tripType params")
  case one_way
  show ?thesis
  proof (cases "origin params = None \<or> destination params = None \<or> \<not> truthy (departureDate params)")
    case True
    from od_one_way_unmet[OF one_way True] show ?thesis by blast
  next
    case False
    then have n: "origin params \<noteq> None" "destination params \<noteq> None"
      "truthy (departureDate params)" by simp_all
    from n(1) obtain org where org: "origin params = Some org" by blast
    from n(2) obtain dst where dst: "destination params = Some dst" by blast
    from truthy_cases[OF n(3)] obtain d where d: "departureDate params = Some d" "d \<noteq> []"
      by blast
    from od_one_way[OF one_way org dst d] show ?thesis by blast
  qed
next
  case return_trip
  show ?thesis
  proof (cases "origin params = None \<or> destination params = None \<or> \<not> truthy (departureDate params)
     \<or> \<not> truthy (returnDate params)")
    case True
    from od_return_unmet[OF return_trip True] show ?thesis by blast
  next
    case False
    then have n: "origin params \<noteq> None" "destination params \<noteq> None"
      "truthy (departureDate params)" "truthy (returnDate params)" by simp_all
    from n(1) obtain org where org: "origin params = Some org" by blast
    from n(2) obtain dst where dst: "destination params = Some dst" by blast
    from truthy_cases[OF n(3)] obtain d1 where d1: "departureDate params = Some d1" "d1 \<noteq> []"
      by blast
    from truthy_cases[OF n(4)] obtain d2 where d2: "returnDate params = Some d2" "d2 \<noteq> []"
      by blast
    from od_return[OF return_trip org dst d1 d2] show ?thesis by blast
  qed
next
  case multi_trip
  show ?thesis
  proof (cases "segments params")
    case None
    from od_multi_none[OF multi_trip None] show ?thesis by blast
  next
    case (Some segs)
    have "list_all keep_segment (filter keep_segment segs)" by (simp add: list_all_iff)
    from map_indexed_kept[OF this, of toUpperCase 0] obtain ods
      where "map_indexed (segment_entry toUpperCase) 0 (filter keep_segment segs) = Inr ods" by blast
    with od_multi[OF multi_trip Some] show ?thesis by simp
  qed
qed

lemma build_request_explicit:
  "build_originDestinations toUpperCase params = Inr ods \<Longrightarrow>
     buildFlightOffersSearchRequest toUpperCase params =
       Inr \<lparr>currencyCode = or_else (currency params) ''NGN'',
            originDestinations = ods,
            travelers = build_travelers (passengers params),
            sources = [''GDS''],
            maxFlightOffers = (case maxOffers params of None \<Rightarrow> 50
                               | Some m \<Rightarrow> if m = 0 then 50 else m),
            cabinRestrictions =
              [\<lparr>cabin = travelClass params, coverage = MOST_SEGMENTS,
                originDestinationIds = map od_id ods\<rparr>]\<rparr>"
  by (simp add: buildFlightOffersSearchRequest_def Let_def)



section \<open>One-way and return trips\<close>

lemma upper_char_upper: "is_upper_letter c \<Longrightarrow> upper_char c = c"
  by (simp add: is_upper_letter_def upper_char_def Let_def)

lemma ascii_toUpperCase_kept: "upper_case_kept ascii_toUpperCase"
  by (simp add: upper_case_kept_def ascii_toUpperCase_def list_all_iff upper_char_upper map_idI)

lemma toUpperCase_valid:
  "upper_case_kept toUpperCase \<Longrightarrow> valid_iata code \<Longrightarrow> toUpperCase code = code"
  by (simp add: valid_iata_def upper_case_kept_def)

lemma take_valid_date: "valid_date d \<Longrightarrow> take 10 d = d \<and> d \<noteq> []"
  by (simp add: valid_date_def)

lemma build_cabin:
  "buildFlightOffersSearchRequest toUpperCase params = Inr req \<Longrightarrow>
     cabinRestrictions req =
       [\<lparr>cabin = travelClass params, coverage = MOST_SEGMENTS,
         originDestinationIds = map od_id (originDestinations req)\<rparr>]"
proof -
  assume a: "buildFlightOffersSearchRequest toUpperCase params = Inr req"
  obtain ods where ods: "build_originDestinations toUpperCase params = Inr ods"
    using build_originDestinations_total by blast
  from build_request_explicit[OF ods] a show ?thesis by auto
qed

text \<open>
  Claim C5. The cabin restriction of every request lists the identifiers of all its
  \<open>originDestinations\<close>, with the coverage \<open>MOST_SEGMENTS\<close>. The built-in
  \<open>toUpperCase\<close> leaving upper-case letters as they are, a valid one-way
  specification (origin \<open>O\<close>, destination \<open>D\<close>, date \<open>d1\<close>) gives exactly one entry,
  \<open>O\<close> to \<open>D\<close> on \<open>d1\<close> with the identifier \<open>1\<close>. A valid return specification with the
  return date \<open>d2\<close> gives exactly two entries: \<open>O\<close> to \<open>D\<close> on \<open>d1\<close> with the
  identifier \<open>1\<close>, and \<open>D\<close> to \<open>O\<close> on \<open>d2\<close> with the identifier \<open>2\<close>.
\<close>

theorem build_one_way_and_return:
  "(\<forall>req. buildFlightOffersSearchRequest toUpperCase params = Inr req \<longrightarrow>
       cabinRestrictions req =
         [\<lparr>cabin = travelClass params, coverage = MOST_SEGMENTS,
           originDestinationIds = map od_id (originDestinations req)\<rparr>])
   \<and> (\<forall>org dst d1.
         upper_case_kept toUpperCase
         \<and> tripType params = one_way \<and> origin params = Some org \<and> destination params = Some dst
         \<and> departureDate params = Some d1
         \<and> valid_iata (iataCode org) \<and> valid_iata (iataCode dst) \<and> valid_date d1 \<longrightarrow>
         (\<exists>req. buildFlightOffersSearchRequest toUpperCase params = Inr req
            \<and> originDestinations req =
                 [\<lparr>od_id = ''1'', originLocationCode = iataCode org,
                   destinationLocationCode = iataCode dst, od_date = d1\<rparr>]
            \<and> cabinRestrictions req =
                 [\<lparr>cabin = travelClass params, coverage = MOST_SEGMENTS,
                   originDestinationIds = [''1'']\<rparr>]))
   \<and> (\<forall>org dst d1 d2.
         upper_case_kept toUpperCase
         \<and> tripType params = return_trip \<and> origin params = Some org \<and> destination params = Some dst
         \<and> departureDate params = Some d1 \<and> returnDate params = Some d2
         \<and> valid_iata (iataCode org) \<and> valid_iata (iataCode dst)
         \<and> valid_date d1 \<and> valid_date d2 \<longrightarrow>
         (\<exists>req. buildFlightOffersSearchRequest toUpperCase params = Inr req
            \<and> originDestinations req =
                 [\<lparr>od_id = ''1'', originLocationCode = iataCode org,
                   destinationLocationCode = iataCode dst, od_date = d1\<rparr>,
                  \<lparr>od_id = ''2'', originLocationCode = iataCode dst,
                   destinationLocationCode = iataCode org, od_date = d2\<rparr>]
            \<and> cabinRestrictions req =
                 [\<lparr>cabin = travelClass params, coverage = MOST_SEGMENTS,
                   originDestinationIds = [''1'', ''2'']\<rparr>]))"
proof (intro conjI allI impI)
  fix req assume "buildFlightOffersSearchRequest toUpperCase params = Inr req"
  then show "cabinRestrictions req =
         [\<lparr>cabin = travelClass params, coverage = MOST_SEGMENTS,
           originDestinationIds = map od_id (originDestinations req)\<rparr>]"
    by (rule build_cabin)
next
  fix org dst d1
  assume a: "upper_case_kept toUpperCase
         \<and> tripType params = one_way \<and> origin params = Some org \<and> destination params = Some dst
         \<and> departureDate params = Some d1
         \<and> valid_iata (iataCode org) \<and> valid_iata (iataCode dst) \<and> valid_date d1"
  then have d: "take 10 d1 = d1" "d1 \<noteq> []" using take_valid_date[of d1] by simp_all
  from a have u: "toUpperCase (iataCode org) = iataCode org"
    "toUpperCase (iataCode dst) = iataCode dst"
    by (simp_all add: toUpperCase_valid)
  from a d(2) have "build_originDestinations toUpperCase params =
       Inr [\<lparr>od_id = ''1'', originLocationCode = toUpperCase (iataCode org),
             destinationLocationCode = toUpperCase (iataCode dst), od_date = take 10 d1\<rparr>]"
    using od_one_way[of params org dst d1] by blast
  from build_request_explicit[OF this]
  show "\<exists>req. buildFlightOffersSearchRequest toUpperCase params = Inr req
            \<and> originDestinations req =
                 [\<lparr>od_id = ''1'', originLocationCode = iataCode org,
                   destinationLocationCode = iataCode dst, od_date = d1\<rparr>]
            \<and> cabinRestrictions req =
                 [\<lparr>cabin = travelClass params, coverage = MOST_SEGMENTS,
                   originDestinationIds = [''1'']\<rparr>]"
    by (simp add: d(1) u)
next
  fix org dst d1 d2
  assume a: "upper_case_kept toUpperCase
         \<and> tripType params = return_trip \<and> origin params = Some org \<and> destination params = Some dst
         \<and> departureDate params = Some d1 \<and> returnDate params = Some d2
         \<and> valid_iata (iataCode org) \<and> valid_iata (iataCode dst)
         \<and> valid_date d1 \<and> valid_date d2"
  then have d: "take 10 d1 = d1" "d1 \<noteq> []" "take 10 d2 = d2" "d2 \<noteq> []"
    using take_valid_date[of d1] take_valid_date[of d2] by simp_all
  from a have u: "toUpperCase (iataCode org) = iataCode org"
    "toUpperCase (iataCode dst) = iataCode dst"
    by (simp_all add: toUpperCase_valid)
  from a d(2,4) have "build_originDestinations toUpperCase params =
       Inr [\<lparr>od_id = ''1'', originLocationCode = toUpperCase (iataCode org),
             destinationLocationCode = toUpperCase (iataCode dst), od_date = take 10 d1\<rparr>,
            \<lparr>od_id = ''2'', originLocationCode = toUpperCase (iataCode dst),
             destinationLocationCode = toUpperCase (iataCode org), od_date = take 10 d2\<rparr>]"
    using od_return[of params org dst d1 d2] by blast
  from build_request_explicit[OF this]
  show "\<exists>req. buildFlightOffersSearchRequest toUpperCase params = Inr req
            \<and> originDestinations req =
                 [\<lparr>od_id = ''1'', originLocationCode = iataCode org,
                   destinationLocationCode = iataCode dst, od_date = d1\<rparr>,
                  \<lparr>od_id = ''2'', originLocationCode = iataCode dst,
                   destinationLocationCode = iataCode org, od_date = d2\<rparr>]
            \<and> cabinRestrictions req =
                 [\<lparr>cabin = travelClass params, coverage = MOST_SEGMENTS,
                   originDestinationIds = [''1'', ''2'']\<rparr>]"
    by (simp add: d(1,3) u)
qed

theorem build_one_way_and_return_witness:
  "\<exists>req. buildFlightOffersSearchRequest ascii_toUpperCase return_spec = Inr req
      \<and> originDestinations req =
           [\<lparr>od_id = ''1'', originLocationCode = ''LOS'',
             destinationLocationCode = ''LHR'', od_date = ''2025-03-10''\<rparr>,
            \<lparr>od_id = ''2'', originLocationCode = ''LHR'',
             destinationLocationCode = ''LOS'', od_date = ''2025-03-20''\<rparr>]
      \<and> cabinRestrictions req =
           [\<lparr>cabin = BUSINESS, coverage = MOST_SEGMENTS, originDestinationIds = [''1'', ''2'']\<rparr>]"
proof -
  have h: "tripType return_spec = return_trip \<and> origin return_spec = Some lagos
         \<and> destination return_spec = Some heathrow
         \<and> departureDate return_spec = Some ''2025-03-10''
         \<and> returnDate return_spec = Some ''2025-03-20''
         \<and> valid_iata (iataCode lagos) \<and> valid_iata (iataCode heathrow)
         \<and> valid_date ''2025-03-10'' \<and> valid_date ''2025-03-20''"
    by (simp add: return_spec_def lagos_def heathrow_def valid_iata_def valid_date_def
          is_upper_letter_def)
  note k = ascii_toUpperCase_kept
  have c: "travelClass return_spec = BUSINESS" "iataCode lagos = ''LOS''"
    "iataCode heathrow = ''LHR''"
    by (simp_all add: return_spec_def lagos_def heathrow_def)
  from build_one_way_and_return
         [where params = return_spec and toUpperCase = ascii_toUpperCase] h k
  have "\<exists>req. buildFlightOffersSearchRequest ascii_toUpperCase return_spec = Inr req
            \<and> originDestinations req =
                 [\<lparr>od_id = ''1'', originLocationCode = iataCode lagos,
                   destinationLocationCode = iataCode heathrow, od_date = ''2025-03-10''\<rparr>,
                  \<lparr>od_id = ''2'', originLocationCode = iataCode heathrow,
                   destinationLocationCode = iataCode lagos, od_date = ''2025-03-20''\<rparr>]
            \<and> cabinRestrictions req =
                 [\<lparr>cabin = travelClass return_spec, coverage = MOST_SEGMENTS,
                   originDestinationIds = [''1'', ''2'']\<rparr>]"
    by blast
  then show ?thesis by (simp only: c)
qed

section \<open>Validation of the search tool\<close>

lemma od_passengers:
  "build_originDestinations toUpperCase (sp\<lparr>passengers := ps\<rparr>) = build_originDestinations toUpperCase sp"
proof -
  have h: "tripType (sp\<lparr>passengers := ps\<rparr>) = tripType sp"
    "origin (sp\<lparr>passengers := ps\<rparr>) = origin sp"
    "destination (sp\<lparr>passengers := ps\<rparr>) = destination sp"
    "departureDate (sp\<lparr>passengers := ps\<rparr>) = departureDate sp"
    "returnDate (sp\<lparr>passengers := ps\<rparr>) = returnDate sp"
    "segments (sp\<lparr>passengers := ps\<rparr>) = segments sp"
    by simp_all
  show ?thesis by (simp only: build_originDestinations_def h)
qed

lemma build_passengers:
  "buildFlightOffersSearchRequest toUpperCase (sp\<lparr>passengers := ps\<rparr>) =
     (case buildFlightOffersSearchRequest toUpperCase sp of
        Inl e \<Rightarrow> Inl e
      | Inr req \<Rightarrow> Inr (req\<lparr>travelers := build_travelers ps\<rparr>))"
proof -
  obtain ods where ods: "build_originDestinations toUpperCase sp = Inr ods"
    using build_originDestinations_total by blast
  then have ods': "build_originDestinations toUpperCase (sp\<lparr>passengers := ps\<rparr>) = Inr ods"
    by (simp add: od_passengers)
  show ?thesis
    by (simp add: build_request_explicit[OF ods] build_request_explicit[OF ods'])
qed

lemma validate_passengers:
  "validate_search toUpperCase toISO args = Inr sp \<Longrightarrow> passengers sp = passengers_of args"
  by (auto simp: validate_search_def split: if_splits option.splits sum.splits)

lemma validate_infants:
  "validate_search toUpperCase toISO (args\<lparr>arg_infants := n\<rparr>) =
     (case validate_search toUpperCase toISO args of
        Inl e \<Rightarrow> Inl e
      | Inr sp \<Rightarrow> Inr (sp\<lparr>passengers :=
          \<lparr>adults = arg_adults args, children = arg_children args, infants = n\<rparr>\<rparr>))"
  by (auto simp: validate_search_def passengers_of_def split: option.splits sum.splits)

lemma build_never_throws: "buildFlightOffersSearchRequest toUpperCase sp \<noteq> Inl e"
proof -
  obtain ods where ods: "build_originDestinations toUpperCase sp = Inr ods"
    using build_originDestinations_total by blast
  show ?thesis by (simp add: build_request_explicit[OF ods])
qed

lemma infant_count_ignored:
  "getFlightOffers toUpperCase toISO (args\<lparr>arg_infants := n\<rparr>) =
     (case getFlightOffers toUpperCase toISO args of
        Rejected e \<Rightarrow> Rejected e
      | Searches req \<Rightarrow>
          Searches (req\<lparr>travelers := build_travelers
            \<lparr>adults = arg_adults args, children = arg_children args, infants = n\<rparr>\<rparr>))"
proof (cases "validate_search toUpperCase toISO args")
  case (Inl e)
  then show ?thesis by (simp add: getFlightOffers_def validate_infants)
next
  case (Inr sp)
  obtain req where req: "buildFlightOffersSearchRequest toUpperCase sp = Inr req"
    using build_never_throws[of toUpperCase sp]
    by (cases "buildFlightOffersSearchRequest toUpperCase sp") auto
  with Inr show ?thesis
    by (simp add: getFlightOffers_def validate_infants build_passengers)
qed

lemma rejected_by_validation:
  assumes r: "getFlightOffers toUpperCase toISO args = Rejected e"
  shows "validate_search toUpperCase toISO args = Inl e"
proof (cases "validate_search toUpperCase toISO args")
  case (Inl e')
  with r show ?thesis by (simp add: getFlightOffers_def)
next
  case (Inr sp)
  obtain req where req: "buildFlightOffersSearchRequest toUpperCase sp = Inr req"
    using build_never_throws[of toUpperCase sp]
    by (cases "buildFlightOffersSearchRequest toUpperCase sp") auto
  with Inr r show ?thesis by (simp add: getFlightOffers_def)
qed

lemma validation_rejects:
  "validate_search toUpperCase toISO args = Inl e \<Longrightarrow>
     getFlightOffers toUpperCase toISO args = Rejected e"
  by (simp add: getFlightOffers_def)

lemma validation_accepts:
  assumes "validate_search toUpperCase toISO args = Inr sp"
  shows "\<exists>req. getFlightOffers toUpperCase toISO args = Searches req"
proof -
  obtain req where req: "buildFlightOffersSearchRequest toUpperCase sp = Inr req"
    using build_never_throws[of toUpperCase sp]
    by (cases "buildFlightOffersSearchRequest toUpperCase sp") auto
  with assms show ?thesis by (simp add: getFlightOffers_def)
qed

text \<open>The two tests of the tool, in the words of the properties.\<close>

lemma iata_test_valid: "iata_test toUpperCase code = valid_iata (toUpperCase code)"
  by (simp add: iata_test_def valid_iata_def)

lemma parseDate_read: "truthy (parseDate toISO d) = date_read toISO d"
  by (simp add: parseDate_def truthy_def date_read_def split: option.splits)

lemma check_segments_in_order:
  "list_all (segment_in_order toUpperCase toISO) segs \<Longrightarrow>
     \<exists>tripSegments. check_segments toUpperCase toISO segs = Inr tripSegments"
proof (induction segs)
  case Nil
  show ?case by simp
next
  case (Cons segment rest)
  then obtain ts where ts: "check_segments toUpperCase toISO rest = Inr ts" by auto
  from Cons.prems have "segment_in_order toUpperCase toISO segment" by simp
  then show ?case
    by (simp add: segment_in_order_def iata_test_valid parseDate_read ts)
qed

lemma check_segments_skip:
  "list_all (segment_in_order toUpperCase toISO) pre \<Longrightarrow>
   check_segments toUpperCase toISO rest = Inl e \<Longrightarrow>
     check_segments toUpperCase toISO (pre @ rest) = Inl e"
proof (induction pre)
  case Nil
  then show ?case by simp
next
  case (Cons segment pre)
  then have r: "check_segments toUpperCase toISO (pre @ rest) = Inl e" by simp
  from Cons.prems(1) have "segment_in_order toUpperCase toISO segment" by simp
  then show ?case
    by (simp add: segment_in_order_def iata_test_valid parseDate_read r)
qed

lemma multi_trip_rejects:
  assumes "arg_tripType args = multi_trip"
    and "arg_segments args = Some (pre @ rest)"
    and "list_all (segment_in_order toUpperCase toISO) pre"
    and "check_segments toUpperCase toISO rest = Inl e"
  shows "getFlightOffers toUpperCase toISO args = Rejected e"
proof -
  define segs where "segs = pre @ rest"
  from assms(4) have "rest \<noteq> []" by auto
  then have n: "segs \<noteq> []" by (simp add: segs_def)
  have c: "check_segments toUpperCase toISO segs = Inl e"
    unfolding segs_def by (rule check_segments_skip[OF assms(3,4)])
  have s: "arg_segments args = Some segs" by (simp add: segs_def assms(2))
  have "validate_search toUpperCase toISO args = Inl e"
    by (simp add: validate_search_def assms(1) s n c)
  then show ?thesis by (rule validation_rejects)
qed

text \<open>
  Claim C3, as amended. The search tool has no check of the infant count: changing the
  number of infants never turns an accepted search into a rejected one or the reverse.
  A rejected search stays rejected with the same message, and an accepted search
  reaches the network call with the same request but for its travelers, which the
  builder makes for the new count (each infant associated with an adult in turn). Every
  rejection is a message of the validation, given before any network call. What the
  validation checks, in this order: for a one-way or return trip, that origin,
  destination and departure date are given; that the origin, then the destination, in
  upper case is three letters \<open>A\<close> to \<open>Z\<close>; that the departure date reads; for a return
  trip that the return date is given and reads. For a multi-trip, that there is a
  segment, and for each segment in turn its origin, its destination and its date. The
  message names the field, and the offending value when there is one. A search that
  passes all the checks reaches the network call.
\<close>

theorem getFlightOffers_ignores_infant_count:
  "getFlightOffers toUpperCase toISO (args\<lparr>arg_infants := n\<rparr>) =
     (case getFlightOffers toUpperCase toISO args of
        Rejected e \<Rightarrow> Rejected e
      | Searches req \<Rightarrow>
          Searches (req\<lparr>travelers := build_travelers
            \<lparr>adults = arg_adults args, children = arg_children args, infants = n\<rparr>\<rparr>))
   \<and> (\<forall>e. getFlightOffers toUpperCase toISO args = Rejected e \<longrightarrow>
          validate_search toUpperCase toISO args = Inl e)
   \<and> (arg_tripType args \<noteq> multi_trip
        \<and> (\<not> truthy (arg_origin args) \<or> \<not> truthy (arg_destination args)
             \<or> \<not> truthy (arg_departureDate args)) \<longrightarrow>
        getFlightOffers toUpperCase toISO args =
          Rejected ''Origin, destination, and departure date are required for one-way and return trips'')
   \<and> (\<forall>org dst dep.
        arg_tripType args \<noteq> multi_trip
        \<and> arg_origin args = Some org \<and> org \<noteq> [] \<and> arg_destination args = Some dst \<and> dst \<noteq> []
        \<and> arg_departureDate args = Some dep \<and> dep \<noteq> [] \<longrightarrow>
        (\<not> valid_iata (toUpperCase org) \<longrightarrow>
           getFlightOffers toUpperCase toISO args =
             Rejected (''Invalid origin IATA code: '' @ org
                         @ ''. Use 3-letter codes like LOS, LON, NYC''))
        \<and> (valid_iata (toUpperCase org) \<and> \<not> valid_iata (toUpperCase dst) \<longrightarrow>
             getFlightOffers toUpperCase toISO args =
               Rejected (''Invalid destination IATA code: '' @ dst
                           @ ''. Use 3-letter codes like LOS, LON, NYC''))
        \<and> (valid_iata (toUpperCase org) \<and> valid_iata (toUpperCase dst)
             \<and> \<not> date_read toISO dep \<longrightarrow>
             getFlightOffers toUpperCase toISO args =
               Rejected (''Invalid departure date: '' @ dep @ ''. Use YYYY-MM-DD format.''))
        \<and> (valid_iata (toUpperCase org) \<and> valid_iata (toUpperCase dst) \<and> date_read toISO dep
             \<and> arg_tripType args = return_trip \<and> \<not> truthy (arg_returnDate args) \<longrightarrow>
             getFlightOffers toUpperCase toISO args =
               Rejected ''Return date is required for return trips.'')
        \<and> (\<forall>ret. valid_iata (toUpperCase org) \<and> valid_iata (toUpperCase dst)
             \<and> date_read toISO dep \<and> arg_tripType args = return_trip
             \<and> arg_returnDate args = Some ret \<and> ret \<noteq> [] \<and> \<not> date_read toISO ret \<longrightarrow>
             getFlightOffers toUpperCase toISO args =
               Rejected (''Invalid return date: '' @ ret @ ''. Use YYYY-MM-DD format.''))
        \<and> (valid_iata (toUpperCase org) \<and> valid_iata (toUpperCase dst) \<and> date_read toISO dep
             \<and> (arg_tripType args = one_way
                  \<or> (\<exists>ret. arg_returnDate args = Some ret \<and> ret \<noteq> [] \<and> date_read toISO ret))
             \<longrightarrow> (\<exists>req. getFlightOffers toUpperCase toISO args = Searches req)))
   \<and> (arg_tripType args = multi_trip
        \<and> (arg_segments args = None \<or> arg_segments args = Some []) \<longrightarrow>
        getFlightOffers toUpperCase toISO args =
          Rejected ''Multi-trip requires segments with origin, destination, and departure date for each leg'')
   \<and> (\<forall>pre segment post.
        arg_tripType args = multi_trip \<and> arg_segments args = Some (pre @ segment # post)
        \<and> list_all (segment_in_order toUpperCase toISO) pre \<longrightarrow>
        (\<not> valid_iata (toUpperCase (arg_seg_origin segment)) \<longrightarrow>
           getFlightOffers toUpperCase toISO args =
             Rejected (''Invalid origin IATA code: '' @ arg_seg_origin segment
                         @ ''. Use 3-letter codes like LOS, LON, NYC''))
        \<and> (valid_iata (toUpperCase (arg_seg_origin segment))
             \<and> \<not> valid_iata (toUpperCase (arg_seg_destination segment)) \<longrightarrow>
             getFlightOffers toUpperCase toISO args =
               Rejected (''Invalid destination IATA code: '' @ arg_seg_destination segment
                           @ ''. Use 3-letter codes like LOS, LON, NYC''))
        \<and> (valid_iata (toUpperCase (arg_seg_origin segment))
             \<and> valid_iata (toUpperCase (arg_seg_destination segment))
             \<and> \<not> date_read toISO (arg_seg_departureDate segment) \<longrightarrow>
             getFlightOffers toUpperCase toISO args =
               Rejected (''Invalid departure date: '' @ arg_seg_departureDate segment
                           @ ''. Use YYYY-MM-DD format.'')))
   \<and> (\<forall>segs.
        arg_tripType args = multi_trip \<and> arg_segments args = Some segs \<and> segs \<noteq> []
        \<and> list_all (segment_in_order toUpperCase toISO) segs \<longrightarrow>
        (\<exists>req. getFlightOffers toUpperCase toISO args = Searches req))"
proof -
  let ?G = "getFlightOffers toUpperCase toISO args"
  have i: "getFlightOffers toUpperCase toISO (args\<lparr>arg_infants := n\<rparr>) =
     (case getFlightOffers toUpperCase toISO args of
        Rejected e \<Rightarrow> Rejected e
      | Searches req \<Rightarrow>
          Searches (req\<lparr>travelers := build_travelers
            \<lparr>adults = arg_adults args, children = arg_children args, infants = n\<rparr>\<rparr>))"
    by (rule infant_count_ignored)
  have v: "\<forall>e. ?G = Rejected e \<longrightarrow> validate_search toUpperCase toISO args = Inl e"
    using rejected_by_validation by blast
  have r1: "arg_tripType args \<noteq> multi_trip
        \<and> (\<not> truthy (arg_origin args) \<or> \<not> truthy (arg_destination args)
             \<or> \<not> truthy (arg_departureDate args)) \<longrightarrow>
        ?G = Rejected ''Origin, destination, and departure date are required for one-way and return trips''"
  proof
    assume a: "arg_tripType args \<noteq> multi_trip
        \<and> (\<not> truthy (arg_origin args) \<or> \<not> truthy (arg_destination args)
             \<or> \<not> truthy (arg_departureDate args))"
    then have "validate_search toUpperCase toISO args =
        Inl ''Origin, destination, and departure date are required for one-way and return trips''"
      by (simp add: validate_search_def)
    then show "?G = Rejected ''Origin, destination, and departure date are required for one-way and return trips''"
      by (rule validation_rejects)
  qed
  have r2: "\<forall>org dst dep.
        arg_tripType args \<noteq> multi_trip
        \<and> arg_origin args = Some org \<and> org \<noteq> [] \<and> arg_destination args = Some dst \<and> dst \<noteq> []
        \<and> arg_departureDate args = Some dep \<and> dep \<noteq> [] \<longrightarrow>
        (\<not> valid_iata (toUpperCase org) \<longrightarrow>
           ?G = Rejected (''Invalid origin IATA code: '' @ org
                         @ ''. Use 3-letter codes like LOS, LON, NYC''))
        \<and> (valid_iata (toUpperCase org) \<and> \<not> valid_iata (toUpperCase dst) \<longrightarrow>
             ?G = Rejected (''Invalid destination IATA code: '' @ dst
                           @ ''. Use 3-letter codes like LOS, LON, NYC''))
        \<and> (valid_iata (toUpperCase org) \<and> valid_iata (toUpperCase dst)
             \<and> \<not> date_read toISO dep \<longrightarrow>
             ?G = Rejected (''Invalid departure date: '' @ dep @ ''. Use YYYY-MM-DD format.''))
        \<and> (valid_iata (toUpperCase org) \<and> valid_iata (toUpperCase dst) \<and> date_read toISO dep
             \<and> arg_tripType args = return_trip \<and> \<not> truthy (arg_returnDate args) \<longrightarrow>
             ?G = Rejected ''Return date is required for return trips.'')
        \<and> (\<forall>ret. valid_iata (toUpperCase org) \<and> valid_iata (toUpperCase dst)
             \<and> date_read toISO dep \<and> arg_tripType args = return_trip
             \<and> arg_returnDate args = Some ret \<and> ret \<noteq> [] \<and> \<not> date_read toISO ret \<longrightarrow>
             ?G = Rejected (''Invalid return date: '' @ ret @ ''. Use YYYY-MM-DD format.''))
        \<and> (valid_iata (toUpperCase org) \<and> valid_iata (toUpperCase dst) \<and> date_read toISO dep
             \<and> (arg_tripType args = one_way
                  \<or> (\<exists>ret. arg_returnDate args = Some ret \<and> ret \<noteq> [] \<and> date_read toISO ret))
             \<longrightarrow> (\<exists>req. ?G = Searches req))"
  proof (intro allI impI)
    fix org dst dep
    assume a: "arg_tripType args \<noteq> multi_trip
        \<and> arg_origin args = Some org \<and> org \<noteq> [] \<and> arg_destination args = Some dst \<and> dst \<noteq> []
        \<and> arg_departureDate args = Some dep \<and> dep \<noteq> []"
    then have t: "truthy (arg_origin args)" "truthy (arg_destination args)"
        "truthy (arg_departureDate args)"
      and o: "or_else (arg_origin args) [] = org" "or_else (arg_destination args) [] = dst"
        "or_else (arg_departureDate args) [] = dep"
      and m: "arg_tripType args \<noteq> multi_trip"
      by (simp_all add: truthy_def or_else_def)
    note unfold = validate_search_def m t o iata_test_valid parseDate_read iata_hint_def
    have c1: "\<not> valid_iata (toUpperCase org) \<longrightarrow>
           ?G = Rejected (''Invalid origin IATA code: '' @ org
                         @ ''. Use 3-letter codes like LOS, LON, NYC'')"
    proof
      assume "\<not> valid_iata (toUpperCase org)"
      then have "validate_search toUpperCase toISO args =
          Inl (''Invalid origin IATA code: '' @ org @ ''. Use 3-letter codes like LOS, LON, NYC'')"
        by (simp add: unfold)
      then show "?G = Rejected (''Invalid origin IATA code: '' @ org
                         @ ''. Use 3-letter codes like LOS, LON, NYC'')"
        by (rule validation_rejects)
    qed
    have c2: "valid_iata (toUpperCase org) \<and> \<not> valid_iata (toUpperCase dst) \<longrightarrow>
             ?G = Rejected (''Invalid destination IATA code: '' @ dst
                           @ ''. Use 3-letter codes like LOS, LON, NYC'')"
    proof
      assume "valid_iata (toUpperCase org) \<and> \<not> valid_iata (toUpperCase dst)"
      then have "validate_search toUpperCase toISO args =
          Inl (''Invalid destination IATA code: '' @ dst
                 @ ''. Use 3-letter codes like LOS, LON, NYC'')"
        by (simp add: unfold)
      then show "?G = Rejected (''Invalid destination IATA code: '' @ dst
                           @ ''. Use 3-letter codes like LOS, LON, NYC'')"
        by (rule validation_rejects)
    qed
    have c3: "valid_iata (toUpperCase org) \<and> valid_iata (toUpperCase dst)
             \<and> \<not> date_read toISO dep \<longrightarrow>
             ?G = Rejected (''Invalid departure date: '' @ dep @ ''. Use YYYY-MM-DD format.'')"
    proof
      assume "valid_iata (toUpperCase org) \<and> valid_iata (toUpperCase dst)
             \<and> \<not> date_read toISO dep"
      then have "validate_search toUpperCase toISO args =
          Inl (''Invalid departure date: '' @ dep @ ''. Use YYYY-MM-DD format.'')"
        by (simp add: unfold)
      then show "?G = Rejected (''Invalid departure date: '' @ dep @ ''. Use YYYY-MM-DD format.'')"
        by (rule validation_rejects)
    qed
    have c4: "valid_iata (toUpperCase org) \<and> valid_iata (toUpperCase dst) \<and> date_read toISO dep
             \<and> arg_tripType args = return_trip \<and> \<not> truthy (arg_returnDate args) \<longrightarrow>
             ?G = Rejected ''Return date is required for return trips.''"
    proof
      assume "valid_iata (toUpperCase org) \<and> valid_iata (toUpperCase dst) \<and> date_read toISO dep
             \<and> arg_tripType args = return_trip \<and> \<not> truthy (arg_returnDate args)"
      then have "validate_search toUpperCase toISO args =
          Inl ''Return date is required for return trips.''"
        by (simp add: validate_search_def t o iata_test_valid parseDate_read)
      then show "?G = Rejected ''Return date is required for return trips.''"
        by (rule validation_rejects)
    qed
    have c5: "\<forall>ret. valid_iata (toUpperCase org) \<and> valid_iata (toUpperCase dst)
             \<and> date_read toISO dep \<and> arg_tripType args = return_trip
             \<and> arg_returnDate args = Some ret \<and> ret \<noteq> [] \<and> \<not> date_read toISO ret \<longrightarrow>
             ?G = Rejected (''Invalid return date: '' @ ret @ ''. Use YYYY-MM-DD format.'')"
    proof (intro allI impI)
      fix ret
      assume b: "valid_iata (toUpperCase org) \<and> valid_iata (toUpperCase dst)
             \<and> date_read toISO dep \<and> arg_tripType args = return_trip
             \<and> arg_returnDate args = Some ret \<and> ret \<noteq> [] \<and> \<not> date_read toISO ret"
      then have b1: "arg_returnDate args = Some ret" and b2: "ret \<noteq> []"
        and b3: "\<not> date_read toISO ret" and b4: "arg_tripType args = return_trip"
        and k: "valid_iata (toUpperCase org)" "valid_iata (toUpperCase dst)"
          "date_read toISO dep"
        by simp_all
      from b2 have rt: "truthy (Some ret)" "or_else (Some ret) [] = ret"
        by (simp_all add: truthy_def or_else_def)
      have "validate_search toUpperCase toISO args =
          Inl (''Invalid return date: '' @ ret @ ''. Use YYYY-MM-DD format.'')"
        by (simp add: validate_search_def t o k b1 b3 b4 rt iata_test_valid parseDate_read)
      then show "?G = Rejected (''Invalid return date: '' @ ret @ ''. Use YYYY-MM-DD format.'')"
        by (rule validation_rejects)
    qed
    have c6: "valid_iata (toUpperCase org) \<and> valid_iata (toUpperCase dst) \<and> date_read toISO dep
             \<and> (arg_tripType args = one_way
                  \<or> (\<exists>ret. arg_returnDate args = Some ret \<and> ret \<noteq> [] \<and> date_read toISO ret))
             \<longrightarrow> (\<exists>req. ?G = Searches req)"
    proof
      assume b: "valid_iata (toUpperCase org) \<and> valid_iata (toUpperCase dst) \<and> date_read toISO dep
             \<and> (arg_tripType args = one_way
                  \<or> (\<exists>ret. arg_returnDate args = Some ret \<and> ret \<noteq> [] \<and> date_read toISO ret))"
      then have k: "valid_iata (toUpperCase org)" "valid_iata (toUpperCase dst)"
        "date_read toISO dep" by simp_all
      from b have "arg_tripType args = one_way
                  \<or> (\<exists>ret. arg_returnDate args = Some ret \<and> ret \<noteq> [] \<and> date_read toISO ret)"
        by blast
      then have "\<exists>sp. validate_search toUpperCase toISO args = Inr sp"
      proof
        assume "arg_tripType args = one_way"
        then show ?thesis
          by (simp add: validate_search_def t o k iata_test_valid parseDate_read)
      next
        assume "\<exists>ret. arg_returnDate args = Some ret \<and> ret \<noteq> [] \<and> date_read toISO ret"
        then obtain ret where r: "arg_returnDate args = Some ret" "ret \<noteq> []"
          "date_read toISO ret" by blast
        then have rt: "truthy (Some ret)" "or_else (Some ret) [] = ret"
          by (simp_all add: truthy_def or_else_def)
        show ?thesis
          using m by (simp add: validate_search_def t o k r(1,3) rt iata_test_valid parseDate_read)
      qed
      then obtain sp where "validate_search toUpperCase toISO args = Inr sp" by blast
      then show "\<exists>req. ?G = Searches req" by (rule validation_accepts)
    qed
    show "(\<not> valid_iata (toUpperCase org) \<longrightarrow>
           ?G = Rejected (''Invalid origin IATA code: '' @ org
                         @ ''. Use 3-letter codes like LOS, LON, NYC''))
        \<and> (valid_iata (toUpperCase org) \<and> \<not> valid_iata (toUpperCase dst) \<longrightarrow>
             ?G = Rejected (''Invalid destination IATA code: '' @ dst
                           @ ''. Use 3-letter codes like LOS, LON, NYC''))
        \<and> (valid_iata (toUpperCase org) \<and> valid_iata (toUpperCase dst)
             \<and> \<not> date_read toISO dep \<longrightarrow>
             ?G = Rejected (''Invalid departure date: '' @ dep @ ''. Use YYYY-MM-DD format.''))
        \<and> (valid_iata (toUpperCase org) \<and> valid_iata (toUpperCase dst) \<and> date_read toISO dep
             \<and> arg_tripType args = return_trip \<and> \<not> truthy (arg_returnDate args) \<longrightarrow>
             ?G = Rejected ''Return date is required for return trips.'')
        \<and> (\<forall>ret. valid_iata (toUpperCase org) \<and> valid_iata (toUpperCase dst)
             \<and> date_read toISO dep \<and> arg_tripType args = return_trip
             \<and> arg_returnDate args = Some ret \<and> ret \<noteq> [] \<and> \<not> date_read toISO ret \<longrightarrow>
             ?G = Rejected (''Invalid return date: '' @ ret @ ''. Use YYYY-MM-DD format.''))
        \<and> (valid_iata (toUpperCase org) \<and> valid_iata (toUpperCase dst) \<and> date_read toISO dep
             \<and> (arg_tripType args = one_way
                  \<or> (\<exists>ret. arg_returnDate args = Some ret \<and> ret \<noteq> [] \<and> date_read toISO ret))
             \<longrightarrow> (\<exists>req. ?G = Searches req))"
      by (intro conjI c1 c2 c3 c4 c5 c6)
  qed
  have m1: "arg_tripType args = multi_trip
        \<and> (arg_segments args = None \<or> arg_segments args = Some []) \<longrightarrow>
        ?G = Rejected ''Multi-trip requires segments with origin, destination, and departure date for each leg''"
  proof
    assume "arg_tripType args = multi_trip
        \<and> (arg_segments args = None \<or> arg_segments args = Some [])"
    then have "validate_search toUpperCase toISO args =
        Inl ''Multi-trip requires segments with origin, destination, and departure date for each leg''"
      by (auto simp add: validate_search_def)
    then show "?G = Rejected ''Multi-trip requires segments with origin, destination, and departure date for each leg''"
      by (rule validation_rejects)
  qed
  have m2: "\<forall>pre segment post.
        arg_tripType args = multi_trip \<and> arg_segments args = Some (pre @ segment # post)
        \<and> list_all (segment_in_order toUpperCase toISO) pre \<longrightarrow>
        (\<not> valid_iata (toUpperCase (arg_seg_origin segment)) \<longrightarrow>
           ?G = Rejected (''Invalid origin IATA code: '' @ arg_seg_origin segment
                         @ ''. Use 3-letter codes like LOS, LON, NYC''))
        \<and> (valid_iata (toUpperCase (arg_seg_origin segment))
             \<and> \<not> valid_iata (toUpperCase (arg_seg_destination segment)) \<longrightarrow>
             ?G = Rejected (''Invalid destination IATA code: '' @ arg_seg_destination segment
                           @ ''. Use 3-letter codes like LOS, LON, NYC''))
        \<and> (valid_iata (toUpperCase (arg_seg_origin segment))
             \<and> valid_iata (toUpperCase (arg_seg_destination segment))
             \<and> \<not> date_read toISO (arg_seg_departureDate segment) \<longrightarrow>
             ?G = Rejected (''Invalid departure date: '' @ arg_seg_departureDate segment
                           @ ''. Use YYYY-MM-DD format.''))"
  proof (intro allI impI)
    fix pre segment post
    assume a: "arg_tripType args = multi_trip \<and> arg_segments args = Some (pre @ segment # post)
        \<and> list_all (segment_in_order toUpperCase toISO) pre"
    then have a1: "arg_tripType args = multi_trip"
      and a2: "arg_segments args = Some (pre @ segment # post)"
      and a3: "list_all (segment_in_order toUpperCase toISO) pre" by simp_all
    note rej = multi_trip_rejects[OF a1 a2 a3]
    have c1: "\<not> valid_iata (toUpperCase (arg_seg_origin segment)) \<longrightarrow>
           ?G = Rejected (''Invalid origin IATA code: '' @ arg_seg_origin segment
                         @ ''. Use 3-letter codes like LOS, LON, NYC'')"
    proof
      assume "\<not> valid_iata (toUpperCase (arg_seg_origin segment))"
      then have "check_segments toUpperCase toISO (segment # post) =
          Inl (''Invalid origin IATA code: '' @ arg_seg_origin segment
                 @ ''. Use 3-letter codes like LOS, LON, NYC'')"
        by (simp add: iata_test_valid iata_hint_def)
      then show "?G = Rejected (''Invalid origin IATA code: '' @ arg_seg_origin segment
                         @ ''. Use 3-letter codes like LOS, LON, NYC'')"
        by (rule rej)
    qed
    have c2: "valid_iata (toUpperCase (arg_seg_origin segment))
             \<and> \<not> valid_iata (toUpperCase (arg_seg_destination segment)) \<longrightarrow>
             ?G = Rejected (''Invalid destination IATA code: '' @ arg_seg_destination segment
                           @ ''. Use 3-letter codes like LOS, LON, NYC'')"
    proof
      assume "valid_iata (toUpperCase (arg_seg_origin segment))
             \<and> \<not> valid_iata (toUpperCase (arg_seg_destination segment))"
      then have "check_segments toUpperCase toISO (segment # post) =
          Inl (''Invalid destination IATA code: '' @ arg_seg_destination segment
                 @ ''. Use 3-letter codes like LOS, LON, NYC'')"
        by (simp add: iata_test_valid iata_hint_def)
      then show "?G = Rejected (''Invalid destination IATA code: '' @ arg_seg_destination segment
                           @ ''. Use 3-letter codes like LOS, LON, NYC'')"
        by (rule rej)
    qed
    have c3: "valid_iata (toUpperCase (arg_seg_origin segment))
             \<and> valid_iata (toUpperCase (arg_seg_destination segment))
             \<and> \<not> date_read toISO (arg_seg_departureDate segment) \<longrightarrow>
             ?G = Rejected (''Invalid departure date: '' @ arg_seg_departureDate segment
                           @ ''. Use YYYY-MM-DD format.'')"
    proof
      assume "valid_iata (toUpperCase (arg_seg_origin segment))
             \<and> valid_iata (toUpperCase (arg_seg_destination segment))
             \<and> \<not> date_read toISO (arg_seg_departureDate segment)"
      then have "check_segments toUpperCase toISO (segment # post) =
          Inl (''Invalid departure date: '' @ arg_seg_departureDate segment
                 @ ''. Use YYYY-MM-DD format.'')"
        by (simp add: iata_test_valid parseDate_read)
      then show "?G = Rejected (''Invalid departure date: '' @ arg_seg_departureDate segment
                           @ ''. Use YYYY-MM-DD format.'')"
        by (rule rej)
    qed
    show "(\<not> valid_iata (toUpperCase (arg_seg_origin segment)) \<longrightarrow>
           ?G = Rejected (''Invalid origin IATA code: '' @ arg_seg_origin segment
                         @ ''. Use 3-letter codes like LOS, LON, NYC''))
        \<and> (valid_iata (toUpperCase (arg_seg_origin segment))
             \<and> \<not> valid_iata (toUpperCase (arg_seg_destination segment)) \<longrightarrow>
             ?G = Rejected (''Invalid destination IATA code: '' @ arg_seg_destination segment
                           @ ''. Use 3-letter codes like LOS, LON, NYC''))
        \<and> (valid_iata (toUpperCase (arg_seg_origin segment))
             \<and> valid_iata (toUpperCase (arg_seg_destination segment))
             \<and> \<not> date_read toISO (arg_seg_departureDate segment) \<longrightarrow>
             ?G = Rejected (''Invalid departure date: '' @ arg_seg_departureDate segment
                           @ ''. Use YYYY-MM-DD format.''))"
      by (intro conjI c1 c2 c3)
  qed
  have m3: "\<forall>segs.
        arg_tripType args = multi_trip \<and> arg_segments args = Some segs \<and> segs \<noteq> []
        \<and> list_all (segment_in_order toUpperCase toISO) segs \<longrightarrow>
        (\<exists>req. ?G = Searches req)"
  proof (intro allI impI)
    fix segs
    assume a: "arg_tripType args = multi_trip \<and> arg_segments args = Some segs \<and> segs \<noteq> []
        \<and> list_all (segment_in_order toUpperCase toISO) segs"
    then obtain ts where "check_segments toUpperCase toISO segs = Inr ts"
      using check_segments_in_order[of toUpperCase toISO segs] by blast
    with a have "\<exists>sp. validate_search toUpperCase toISO args = Inr sp"
      by (simp add: validate_search_def)
    then obtain sp where "validate_search toUpperCase toISO args = Inr sp" by blast
    then show "\<exists>req. ?G = Searches req" by (rule validation_accepts)
  qed
  show ?thesis by (intro conjI i v r1 r2 m1 m2 m3)
qed

text \<open>
  The claim as first stated fails: one adult with three infants is not rejected, the
  search goes to the network with all three infants associated with the one adult.
\<close>

theorem getFlightOffers_accepts_excess_infants_counterexample:
  "arg_adults three_infants_one_adult = 1 \<and> arg_infants three_infants_one_adult = 3
   \<and> getFlightOffers ascii_toUpperCase midnight_iso three_infants_one_adult =
     Searches
       \<lparr>currencyCode = ''NGN'',
        originDestinations =
          [\<lparr>od_id = ''1'', originLocationCode = ''LOS'',
            destinationLocationCode = ''LHR'', od_date = ''2025-03-10''\<rparr>],
        travelers =
          [\<lparr>traveler_id = ''1'', travelerType = ADULT, associatedAdultId = None\<rparr>,
           \<lparr>traveler_id = ''2'', travelerType = HELD_INFANT, associatedAdultId = Some ''1''\<rparr>,
           \<lparr>traveler_id = ''3'', travelerType = HELD_INFANT, associatedAdultId = Some ''1''\<rparr>,
           \<lparr>traveler_id = ''4'', travelerType = HELD_INFANT, associatedAdultId = Some ''1''\<rparr>],
        sources = [''GDS''], maxFlightOffers = 50,
        cabinRestrictions =
          [\<lparr>cabin = ECONOMY, coverage = MOST_SEGMENTS, originDestinationIds = [''1'']\<rparr>]\<rparr>"
  by code_simp

theorem getFlightOffers_ignores_infant_count_witness:
  "(\<exists>req. getFlightOffers ascii_toUpperCase midnight_iso
             (three_infants_one_adult\<lparr>arg_infants := 5\<rparr>) = Searches req
      \<and> originDestinations req =
          [\<lparr>od_id = ''1'', originLocationCode = ''LOS'',
            destinationLocationCode = ''LHR'', od_date = ''2025-03-10''\<rparr>])
   \<and> getFlightOffers ascii_toUpperCase midnight_iso
        (three_infants_one_adult\<lparr>arg_origin := Some ''Lagos''\<rparr>)
       = Rejected ''Invalid origin IATA code: Lagos. Use 3-letter codes like LOS, LON, NYC''"
proof
  have e: "getFlightOffers ascii_toUpperCase midnight_iso three_infants_one_adult =
     Searches
       \<lparr>currencyCode = ''NGN'',
        originDestinations =
          [\<lparr>od_id = ''1'', originLocationCode = ''LOS'',
            destinationLocationCode = ''LHR'', od_date = ''2025-03-10''\<rparr>],
        travelers =
          [\<lparr>traveler_id = ''1'', travelerType = ADULT, associatedAdultId = None\<rparr>,
           \<lparr>traveler_id = ''2'', travelerType = HELD_INFANT, associatedAdultId = Some ''1''\<rparr>,
           \<lparr>traveler_id = ''3'', travelerType = HELD_INFANT, associatedAdultId = Some ''1''\<rparr>,
           \<lparr>traveler_id = ''4'', travelerType = HELD_INFANT, associatedAdultId = Some ''1''\<rparr>],
        sources = [''GDS''], maxFlightOffers = 50,
        cabinRestrictions =
          [\<lparr>cabin = ECONOMY, coverage = MOST_SEGMENTS, originDestinationIds = [''1'']\<rparr>]\<rparr>"
    by code_simp
  have "getFlightOffers ascii_toUpperCase midnight_iso (three_infants_one_adult\<lparr>arg_infants := 5\<rparr>) =
     (case getFlightOffers ascii_toUpperCase midnight_iso three_infants_one_adult of
        Rejected e \<Rightarrow> Rejected e
      | Searches req \<Rightarrow>
          Searches (req\<lparr>travelers := build_travelers
            \<lparr>adults = arg_adults three_infants_one_adult,
             children = arg_children three_infants_one_adult, infants = 5\<rparr>\<rparr>))"
    using getFlightOffers_ignores_infant_count
         [where toUpperCase = ascii_toUpperCase and toISO = midnight_iso
            and args = three_infants_one_adult and n = 5]
    by (elim conjE)
  then show "\<exists>req. getFlightOffers ascii_toUpperCase midnight_iso
             (three_infants_one_adult\<lparr>arg_infants := 5\<rparr>) = Searches req
      \<and> originDestinations req =
          [\<lparr>od_id = ''1'', originLocationCode = ''LOS'',
            destinationLocationCode = ''LHR'', od_date = ''2025-03-10''\<rparr>]"
    by (simp add: e)
next
  let ?a = "three_infants_one_adult\<lparr>arg_origin := Some ''Lagos''\<rparr>"
  let ?G = "getFlightOffers ascii_toUpperCase midnight_iso ?a"
  have h: "arg_tripType ?a \<noteq> multi_trip
        \<and> arg_origin ?a = Some ''Lagos'' \<and> ''Lagos'' \<noteq> []
        \<and> arg_destination ?a = Some ''LHR'' \<and> ''LHR'' \<noteq> []
        \<and> arg_departureDate ?a = Some ''2025-03-10'' \<and> ''2025-03-10'' \<noteq> []"
    by (simp add: three_infants_one_adult_def)
  have nv: "\<not> valid_iata (ascii_toUpperCase ''Lagos'')"
    by (simp add: valid_iata_def ascii_toUpperCase_def)
  have "\<forall>org dst dep.
        arg_tripType ?a \<noteq> multi_trip
        \<and> arg_origin ?a = Some org \<and> org \<noteq> [] \<and> arg_destination ?a = Some dst \<and> dst \<noteq> []
        \<and> arg_departureDate ?a = Some dep \<and> dep \<noteq> [] \<longrightarrow>
        (\<not> valid_iata (ascii_toUpperCase org) \<longrightarrow>
           ?G = Rejected (''Invalid origin IATA code: '' @ org
                         @ ''. Use 3-letter codes like LOS, LON, NYC''))
        \<and> (valid_iata (ascii_toUpperCase org) \<and> \<not> valid_iata (ascii_toUpperCase dst) \<longrightarrow>
             ?G = Rejected (''Invalid destination IATA code: '' @ dst
                           @ ''. Use 3-letter codes like LOS, LON, NYC''))
        \<and> (valid_iata (ascii_toUpperCase org) \<and> valid_iata (ascii_toUpperCase dst)
             \<and> \<not> date_read midnight_iso dep \<longrightarrow>
             ?G = Rejected (''Invalid departure date: '' @ dep @ ''. Use YYYY-MM-DD format.''))
        \<and> (valid_iata (ascii_toUpperCase org) \<and> valid_iata (ascii_toUpperCase dst)
             \<and> date_read midnight_iso dep
             \<and> arg_tripType ?a = return_trip \<and> \<not> truthy (arg_returnDate ?a) \<longrightarrow>
             ?G = Rejected ''Return date is required for return trips.'')
        \<and> (\<forall>ret. valid_iata (ascii_toUpperCase org) \<and> valid_iata (ascii_toUpperCase dst)
             \<and> date_read midnight_iso dep \<and> arg_tripType ?a = return_trip
             \<and> arg_returnDate ?a = Some ret \<and> ret \<noteq> [] \<and> \<not> date_read midnight_iso ret \<longrightarrow>
             ?G = Rejected (''Invalid return date: '' @ ret @ ''. Use YYYY-MM-DD format.''))
        \<and> (valid_iata (ascii_toUpperCase org) \<and> valid_iata (ascii_toUpperCase dst)
             \<and> date_read midnight_iso dep
             \<and> (arg_tripType ?a = one_way
                  \<or> (\<exists>ret. arg_returnDate ?a = Some ret \<and> ret \<noteq> [] \<and> date_read midnight_iso ret))
             \<longrightarrow> (\<exists>req. ?G = Searches req))"
    using getFlightOffers_ignores_infant_count
         [where toUpperCase = ascii_toUpperCase and toISO = midnight_iso
            and args = ?a and n = 0]
    by (elim conjE)
  from this[rule_format, of "''Lagos''" "''LHR''" "''2025-03-10''", OF h, THEN conjunct1,
            rule_format, OF nv]
  show "?G = Rejected ''Invalid origin IATA code: Lagos. Use 3-letter codes like LOS, LON, NYC''"
    by simp
qed

section \<open>Stops filter\<close>

lemma filterByStops_any: "filterByStops offers ''any'' = offers"
  by (simp add: filterByStops_def stops_match_def list_all_iff)

text \<open>
  Claim C6. The stops filter keeps an offer exactly when every itinerary of it fits the
  bucket: segment count minus one equal to 0 for \<open>nonstop\<close>, equal to 1 for \<open>1-stop\<close>,
  at least 2 for \<open>2+-stops\<close>; \<open>any\<close> filters nothing. The filter of
  \<open>filterFlightOffers\<close> is the same one, and is skipped for \<open>any\<close> and for no bucket.
  An offer whose two itineraries have one and two segments is dropped by \<open>nonstop\<close>
  and by \<open>1-stop\<close> and kept by \<open>any\<close>.
\<close>

theorem filterByStops_buckets:
  "filterByStops offers ''nonstop'' =
     filter (\<lambda>offer. \<forall>it \<in> set (itineraries offer).
               int (length (itinerary_segments it)) - 1 = 0) offers
   \<and> filterByStops offers ''1-stop'' =
     filter (\<lambda>offer. \<forall>it \<in> set (itineraries offer).
               int (length (itinerary_segments it)) - 1 = 1) offers
   \<and> filterByStops offers ''2+-stops'' =
     filter (\<lambda>offer. \<forall>it \<in> set (itineraries offer).
               int (length (itinerary_segments it)) - 1 \<ge> 2) offers
   \<and> filterByStops offers ''any'' = offers
   \<and> (\<forall>b. b = ''nonstop'' \<or> b = ''1-stop'' \<or> b = ''2+-stops'' \<longrightarrow>
         filterFlightOffers toUpperCase parseFloat parseInt to_double getTime offers
           \<lparr>airlines = None, stops = Some b, sortBy = None\<rparr> = filterByStops offers b)
   \<and> filterFlightOffers toUpperCase parseFloat parseInt to_double getTime offers
        \<lparr>airlines = None, stops = Some ''any'', sortBy = None\<rparr> = offers
   \<and> filterFlightOffers toUpperCase parseFloat parseInt to_double getTime offers
        \<lparr>airlines = None, stops = None, sortBy = None\<rparr> = offers
   \<and> (\<forall>offer i1 i2.
         itineraries offer = [i1, i2] \<and> length (itinerary_segments i1) = 1
         \<and> length (itinerary_segments i2) = 2 \<longrightarrow>
         filterByStops [offer] ''nonstop'' = []
         \<and> filterByStops [offer] ''1-stop'' = []
         \<and> filterByStops [offer] ''any'' = [offer])"
proof -
  have a: "filterByStops offers ''nonstop'' =
     filter (\<lambda>offer. \<forall>it \<in> set (itineraries offer).
               int (length (itinerary_segments it)) - 1 = 0) offers"
    by (simp add: filterByStops_def stops_match_def list_all_iff)
  have b: "filterByStops offers ''1-stop'' =
     filter (\<lambda>offer. \<forall>it \<in> set (itineraries offer).
               int (length (itinerary_segments it)) - 1 = 1) offers"
    by (simp add: filterByStops_def stops_match_def list_all_iff)
  have c: "filterByStops offers ''2+-stops'' =
     filter (\<lambda>offer. \<forall>it \<in> set (itineraries offer).
               int (length (itinerary_segments it)) - 1 \<ge> 2) offers"
    by (simp add: filterByStops_def stops_match_def list_all_iff)
  have d: "filterByStops offers ''any'' = offers" by (rule filterByStops_any)
  have e: "\<forall>b. b = ''nonstop'' \<or> b = ''1-stop'' \<or> b = ''2+-stops'' \<longrightarrow>
         filterFlightOffers toUpperCase parseFloat parseInt to_double getTime offers
           \<lparr>airlines = None, stops = Some b, sortBy = None\<rparr> = filterByStops offers b"
  proof (intro allI impI)
    fix b :: string
    assume "b = ''nonstop'' \<or> b = ''1-stop'' \<or> b = ''2+-stops''"
    then show "filterFlightOffers toUpperCase parseFloat parseInt to_double getTime offers
           \<lparr>airlines = None, stops = Some b, sortBy = None\<rparr> = filterByStops offers b"
      by (elim disjE)
         (simp_all add: filterFlightOffers_def filterByStops_def truthy_def or_else_def)
  qed
  have f: "filterFlightOffers toUpperCase parseFloat parseInt to_double getTime offers
        \<lparr>airlines = None, stops = Some ''any'', sortBy = None\<rparr> = offers"
    by (simp add: filterFlightOffers_def truthy_def)
  have g: "filterFlightOffers toUpperCase parseFloat parseInt to_double getTime offers
        \<lparr>airlines = None, stops = None, sortBy = None\<rparr> = offers"
    by (simp add: filterFlightOffers_def truthy_def)
  have h: "\<forall>offer i1 i2.
         itineraries offer = [i1, i2] \<and> length (itinerary_segments i1) = 1
         \<and> length (itinerary_segments i2) = 2 \<longrightarrow>
         filterByStops [offer] ''nonstop'' = []
         \<and> filterByStops [offer] ''1-stop'' = []
         \<and> filterByStops [offer] ''any'' = [offer]"
    by (simp add: filterByStops_def stops_match_def)
  show ?thesis by (intro conjI a b c d e f g h)
qed

theorem filterByStops_buckets_witness:
  "filterByStops [mixed_offer] ''nonstop'' = []
   \<and> filterByStops [mixed_offer] ''1-stop'' = []
   \<and> filterByStops [mixed_offer] ''any'' = [mixed_offer]"
proof -
  let ?i1 = "\<lparr>duration = Some ''PT6H30M'',
          itinerary_segments = [flight ''BA'' ''2025-03-10T10:00:00'']\<rparr>"
  let ?i2 = "\<lparr>duration = Some ''PT9H'',
          itinerary_segments = [flight ''AF'' ''2025-03-20T08:00:00'',
                                flight ''AF'' ''2025-03-20T13:00:00'']\<rparr>"
  have m: "itineraries mixed_offer = [?i1, ?i2] \<and> length (itinerary_segments ?i1) = 1
         \<and> length (itinerary_segments ?i2) = 2"
    by (simp add: mixed_offer_def)
  have "\<forall>offer i1 i2.
         itineraries offer = [i1, i2] \<and> length (itinerary_segments i1) = 1
         \<and> length (itinerary_segments i2) = 2 \<longrightarrow>
         filterByStops [offer] ''nonstop'' = []
         \<and> filterByStops [offer] ''1-stop'' = []
         \<and> filterByStops [offer] ''any'' = [offer]"
    using filterByStops_buckets
            [where offers = "[mixed_offer]" and toUpperCase = ascii_toUpperCase
               and parseFloat = decimal_Number and parseInt = decimal_Number
               and to_double = no_rounding and getTime = decimal_Number]
    by (elim conjE)
  with m show ?thesis by blast
qed

section \<open>Pagination\<close>

lemma js_slice_page:
  assumes "0 \<le> start" and "0 \<le> n"
  shows "js_slice xs start (start + n) = take (nat n) (drop (nat start) xs)"
proof (cases "start \<le> int (length xs)")
  case True
  let ?len = "int (length xs)"
  have k: "min start ?len = start" using True by simp
  have "nat (min (start + n) ?len - start) = min (nat n) (length xs - nat start)"
    using assms True by (simp add: min_def) linarith
  then have "js_slice xs start (start + n)
      = take (min (nat n) (length (drop (nat start) xs))) (drop (nat start) xs)"
    using assms by (simp add: js_slice_def Let_def k)
  then show ?thesis by (simp add: min_def)
next
  case False
  then have "length xs \<le> nat start" by linarith
  then have d: "drop (nat start) xs = []" by simp
  have "js_slice xs start (start + n) = []"
    using assms False by (simp add: js_slice_def Let_def min_def)
  with d show ?thesis by simp
qed

lemma paginate_data:
  assumes "1 \<le> per_page" and "1 \<le> pg"
  shows "page_data (paginate offers pg per_page)
           = take (nat per_page) (drop (nat ((pg - 1) * per_page)) offers)"
proof -
  have "0 \<le> (pg - 1) * per_page" using assms by simp
  moreover have "0 \<le> per_page" using assms by simp
  ultimately show ?thesis by (simp add: paginate_def Let_def js_slice_page)
qed

lemma paginate_totalPages:
  assumes "1 \<le> per_page"
  shows "totalPages (paginate offers pg per_page)
           = Num (of_int \<lceil>real (length offers) / real_of_int per_page\<rceil>)"
  using assms by (simp add: paginate_def Let_def ceil_pages_def)

lemma beyond_last_page:
  assumes "1 \<le> per_page" and "\<lceil>real (length offers) / real_of_int per_page\<rceil> < pg"
  shows "length offers \<le> nat ((pg - 1) * per_page)"
proof -
  have p: "0 < real_of_int per_page" using assms(1) by simp
  from assms(2) have "\<lceil>real (length offers) / real_of_int per_page\<rceil> \<le> pg - 1" by simp
  then have "real (length offers) / real_of_int per_page \<le> real_of_int (pg - 1)"
    by (simp only: ceiling_le_iff)
  then have "real (length offers) \<le> real_of_int (pg - 1) * real_of_int per_page"
    using p by (simp add: pos_divide_le_eq)
  then have "real_of_int (int (length offers)) \<le> real_of_int ((pg - 1) * per_page)" by simp
  then have "int (length offers) \<le> (pg - 1) * per_page" by (simp only: of_int_le_iff)
  then show ?thesis by linarith
qed

text \<open>
  Claim C2, as amended. For a page size of at least 1 and a page number of at least 1,
  \<open>totalPages\<close> is the ceiling of the offer count over the page size, which is 0 when
  there is no offer (there is no minimum of 1); the page is the slice of the offers from
  index \<open>(page - 1) * pageSize\<close>, of at most \<open>pageSize\<close> offers; and a page beyond
  the last one is empty, with no error. The tool of the assistant gives the same count
  and the same page. With 23 offers and a page size of 10 there are 3 pages, page 3 has
  3 offers and page 4 is empty.
\<close>

theorem paginate_pages:
  assumes "1 \<le> per_page" and "1 \<le> pg"
  shows "totalPages (paginate offers pg per_page)
           = Num (of_int \<lceil>real (length offers) / real_of_int per_page\<rceil>)
       \<and> (offers = [] \<longrightarrow> totalPages (paginate offers pg per_page) = Num 0)
       \<and> page_data (paginate offers pg per_page)
           = take (nat per_page) (drop (nat ((pg - 1) * per_page)) offers)
       \<and> (\<forall>i<length (page_data (paginate offers pg per_page)).
             i < nat per_page
             \<and> page_data (paginate offers pg per_page) ! i
                 = offers ! (nat ((pg - 1) * per_page) + i))
       \<and> (\<lceil>real (length offers) / real_of_int per_page\<rceil> < pg \<longrightarrow>
             page_data (paginate offers pg per_page) = [])
       \<and> totalPages (tool_paginate offers pg per_page) = totalPages (paginate offers pg per_page)
       \<and> page_data (tool_paginate offers pg per_page) = page_data (paginate offers pg per_page)
       \<and> (length offers = 23 \<and> per_page = 10 \<longrightarrow>
             totalPages (paginate offers pg per_page) = Num 3
             \<and> (pg = 3 \<longrightarrow> length (page_data (paginate offers pg per_page)) = 3)
             \<and> (pg = 4 \<longrightarrow> page_data (paginate offers pg per_page) = []))"
proof -
  let ?d = "page_data (paginate offers pg per_page)"
  let ?s = "nat ((pg - 1) * per_page)"
  have tp: "totalPages (paginate offers pg per_page)
           = Num (of_int \<lceil>real (length offers) / real_of_int per_page\<rceil>)"
    using assms(1) by (rule paginate_totalPages)
  have z: "offers = [] \<longrightarrow> totalPages (paginate offers pg per_page) = Num 0"
    using assms(1) by (simp add: paginate_totalPages)
  have d: "?d = take (nat per_page) (drop ?s offers)"
    using assms by (rule paginate_data)
  have n: "\<forall>i<length ?d. i < nat per_page \<and> ?d ! i = offers ! (?s + i)"
  proof (intro allI impI)
    fix i assume "i < length ?d"
    then have i: "i < nat per_page" "i < length offers - ?s" by (simp_all add: d)
    then have "?d ! i = offers ! (?s + i)" by (simp add: d)
    with i(1) show "i < nat per_page \<and> ?d ! i = offers ! (?s + i)" by simp
  qed
  have b: "\<lceil>real (length offers) / real_of_int per_page\<rceil> < pg \<longrightarrow> ?d = []"
  proof
    assume "\<lceil>real (length offers) / real_of_int per_page\<rceil> < pg"
    with assms(1) have "length offers \<le> ?s" by (rule beyond_last_page)
    then show "?d = []" by (simp add: d)
  qed
  have t1: "totalPages (tool_paginate offers pg per_page) = totalPages (paginate offers pg per_page)"
    using assms(1) by (simp add: tool_paginate_def tp)
  have t2: "page_data (tool_paginate offers pg per_page) = ?d"
    by (simp add: tool_paginate_def d)
  have e: "length offers = 23 \<and> per_page = 10 \<longrightarrow>
             totalPages (paginate offers pg per_page) = Num 3
             \<and> (pg = 3 \<longrightarrow> length ?d = 3)
             \<and> (pg = 4 \<longrightarrow> ?d = [])"
  proof
    assume a: "length offers = 23 \<and> per_page = 10"
    have c: "\<lceil>(23::real) / 10\<rceil> = 3" by (simp add: ceiling_eq_iff)
    from a have lo: "length offers = 23" and pp: "per_page = 10" by simp_all
    from tp c have e1: "totalPages (paginate offers pg per_page) = Num 3"
      by (simp only: lo pp of_nat_numeral of_int_numeral)
    have e2: "pg = 3 \<longrightarrow> length ?d = 3"
    proof
      assume "pg = 3"
      with d lo pp show "length ?d = 3" by simp
    qed
    have e3: "pg = 4 \<longrightarrow> ?d = []"
    proof
      assume "pg = 4"
      with d lo pp show "?d = []" by simp
    qed
    from e1 e2 e3 show "totalPages (paginate offers pg per_page) = Num 3
             \<and> (pg = 3 \<longrightarrow> length ?d = 3)
             \<and> (pg = 4 \<longrightarrow> ?d = [])" by (intro conjI)
  qed
  show ?thesis by (intro conjI tp z d n b t1 t2 e)
qed

theorem paginate_pages_witness:
  "totalPages (paginate offers23 3 10) = Num 3
   \<and> length (page_data (paginate offers23 3 10)) = 3
   \<and> page_data (paginate offers23 4 10) = []
   \<and> totalPages (paginate offers23 4 10) = Num 3"
proof -
  have l: "length offers23 = 23 \<and> (10::int) = 10" by (simp add: offers23_def)
  have h: "(1::int) \<le> 10" "(1::int) \<le> 3" "(1::int) \<le> 4" by simp_all
  have p3: "length offers23 = 23 \<and> (10::int) = 10 \<longrightarrow>
             totalPages (paginate offers23 3 10) = Num 3
             \<and> ((3::int) = 3 \<longrightarrow> length (page_data (paginate offers23 3 10)) = 3)
             \<and> ((3::int) = 4 \<longrightarrow> page_data (paginate offers23 3 10) = [])"
    using paginate_pages[OF h(1) h(2), of offers23] by (elim conjE)
  have p4: "length offers23 = 23 \<and> (10::int) = 10 \<longrightarrow>
             totalPages (paginate offers23 4 10) = Num 3
             \<and> ((4::int) = 3 \<longrightarrow> length (page_data (paginate offers23 4 10)) = 3)
             \<and> ((4::int) = 4 \<longrightarrow> page_data (paginate offers23 4 10) = [])"
    using paginate_pages[OF h(1) h(3), of offers23] by (elim conjE)
  from p3 p4 l show ?thesis by simp
qed

text \<open>
  The claim as first stated gives at least one page. With no offer, \<open>totalPages\<close> is 0
  in the route and in the tool.
\<close>

theorem paginate_no_offer_counterexample:
  "totalPages (paginate [] 1 10) = Num 0
   \<and> totalPages (tool_paginate [] 1 10) = Num 0
   \<and> Num 0 \<noteq> Num 1"
  by (simp add: paginate_def tool_paginate_def ceil_pages_def)

section \<open>Sorting\<close>

text \<open>
  With a comparator that subtracts finite keys, the sort of the model is the stable sort
  by that key.
\<close>

lemma js_insert_insort_key:
  assumes "kf x = Num (key x)" and "\<forall>y\<in>set ys. kf y = Num (key y)"
  shows "js_insert (\<lambda>a b. num_sub (kf a) (kf b)) x ys = insort_key key x ys"
  using assms(2)
proof (induction ys)
  case Nil
  show ?case by simp
next
  case (Cons y ys)
  then have y: "kf y = Num (key y)" and ys: "\<forall>z\<in>set ys. kf z = Num (key z)" by simp_all
  from Cons.IH[OF ys] y assms(1) show ?case by simp
qed

lemma js_sort_sort_key:
  assumes "\<forall>y\<in>set xs. kf y = Num (key y)"
  shows "js_sort (\<lambda>a b. num_sub (kf a) (kf b)) xs = sort_key key xs"
  using assms
proof (induction xs)
  case Nil
  show ?case by (simp add: js_sort_def)
next
  case (Cons x xs)
  then have x: "kf x = Num (key x)" and xs: "\<forall>y\<in>set xs. kf y = Num (key y)" by simp_all
  from Cons.IH[OF xs] have ih: "foldr (js_insert (\<lambda>a b. num_sub (kf a) (kf b))) xs [] = sort_key key xs"
    by (simp add: js_sort_def)
  have "\<forall>y\<in>set (sort_key key xs). kf y = Num (key y)" using xs by simp
  from js_insert_insort_key[OF x this] ih show ?case by (simp add: js_sort_def sort_key_def)
qed

lemma finite_number_value: "finite_number n \<Longrightarrow> n = Num (value_of n)"
  by (cases n) simp_all

lemma js_sort_finite_keys:
  assumes "\<forall>y\<in>set xs. finite_number (kf y)"
  shows "js_sort (\<lambda>a b. num_sub (kf a) (kf b)) xs = sort_key (\<lambda>y. value_of (kf y)) xs"
proof -
  have "\<forall>y\<in>set xs. kf y = Num (value_of (kf y))"
    using assms finite_number_value by blast
  from js_sort_sort_key[of xs kf "\<lambda>y. value_of (kf y)", OF this] show ?thesis .
qed

lemma sortOffers_cheapest:
  assumes "\<forall>offer\<in>set offers. finite_number (parseFloat (price_total offer))"
  shows "sortOffers parseFloat parseInt to_double getTime offers ''cheapest''
           = sort_key (\<lambda>offer. value_of (parseFloat (price_total offer))) offers"
  using js_sort_finite_keys[of offers "\<lambda>offer. parseFloat (price_total offer)", OF assms]
  by (simp add: sortOffers_def)

lemma sortOffers_fastest:
  assumes "\<forall>offer\<in>set offers. finite_number (getDuration parseInt to_double offer)"
  shows "sortOffers parseFloat parseInt to_double getTime offers ''fastest''
           = sort_key (\<lambda>offer. value_of (getDuration parseInt to_double offer)) offers"
  using js_sort_finite_keys[of offers "\<lambda>offer. getDuration parseInt to_double offer", OF assms]
  by (simp add: sortOffers_def)

lemma sortOffers_earliest:
  assumes "\<forall>offer\<in>set offers. finite_number (departure_time getTime offer)"
  shows "sortOffers parseFloat parseInt to_double getTime offers ''earliest''
           = sort_key (\<lambda>offer. value_of (departure_time getTime offer)) offers"
  using js_sort_finite_keys[of offers "\<lambda>offer. departure_time getTime offer", OF assms]
  by (simp add: sortOffers_def)

text \<open>The duration pattern on the tokens \<open>PT#H#M\<close>, \<open>PT#H\<close>, \<open>PT#M\<close> and \<open>PT\<close>.\<close>

lemma not_digit_HM: "\<not> is_digit (CHR ''H'')" "\<not> is_digit (CHR ''M'')"
  by (simp_all add: is_digit_def)

lemma digits_then_hit:
  assumes "digits ds" and "\<not> is_digit x"
  shows "digits_then x (ds @ x # rest) = Some (ds, rest)"
proof -
  from assms(1) have a: "\<forall>c\<in>set ds. is_digit c" and n: "ds \<noteq> []"
    by (simp_all add: digits_def list_all_iff)
  from a assms(2) have t: "takeWhile is_digit (ds @ x # rest) = ds"
    by (simp add: takeWhile_append2)
  from a assms(2) have d: "dropWhile is_digit (ds @ x # rest) = x # rest"
    by (simp add: dropWhile_append2)
  show ?thesis by (simp add: digits_then_def t d n)
qed

lemma digits_then_miss:
  assumes "digits ds" and "\<not> is_digit y" and "y \<noteq> x"
  shows "digits_then x (ds @ y # rest) = None"
proof -
  from assms(1) have a: "\<forall>c\<in>set ds. is_digit c"
    by (simp_all add: digits_def list_all_iff)
  from a assms(2) have d: "dropWhile is_digit (ds @ y # rest) = y # rest"
    by (simp add: dropWhile_append2)
  show ?thesis using assms(3) by (simp add: digits_then_def d)
qed

lemma digits_then_Nil: "digits_then x [] = None"
  by (simp add: digits_then_def)

lemma match_hours_minutes:
  assumes "digits hs" and "digits ms"
  shows "match_PT (''PT'' @ hs @ ''H'' @ ms @ ''M'') = Some (Some hs, Some ms)"
proof -
  have a: "after_PT (''PT'' @ hs @ ''H'' @ ms @ ''M'') = Some (hs @ CHR ''H'' # (ms @ ''M''))"
    by simp
  have h: "digits_then (CHR ''H'') (hs @ CHR ''H'' # (ms @ ''M'')) = Some (hs, ms @ CHR ''M'' # [])"
    using digits_then_hit[OF assms(1) not_digit_HM(1)] by simp
  have m: "digits_then (CHR ''M'') (ms @ CHR ''M'' # []) = Some (ms, [])"
    using digits_then_hit[OF assms(2) not_digit_HM(2)] by simp
  show ?thesis by (simp only: match_PT_def a h m option.case prod.case)
qed

lemma match_hours:
  assumes "digits hs"
  shows "match_PT (''PT'' @ hs @ ''H'') = Some (Some hs, None)"
proof -
  have a: "after_PT (''PT'' @ hs @ ''H'') = Some (hs @ CHR ''H'' # [])" by simp
  have h: "digits_then (CHR ''H'') (hs @ CHR ''H'' # []) = Some (hs, [])"
    using digits_then_hit[OF assms not_digit_HM(1)] by simp
  show ?thesis by (simp only: match_PT_def a h digits_then_Nil option.case prod.case)
qed

lemma match_minutes:
  assumes "digits ms"
  shows "match_PT (''PT'' @ ms @ ''M'') = Some (None, Some ms)"
proof -
  have a: "after_PT (''PT'' @ ms @ ''M'') = Some (ms @ CHR ''M'' # [])" by simp
  have h: "digits_then (CHR ''H'') (ms @ CHR ''M'' # []) = None"
    using digits_then_miss[OF assms not_digit_HM(2), of "CHR ''H''"] by simp
  have m: "digits_then (CHR ''M'') (ms @ CHR ''M'' # []) = Some (ms, [])"
    using digits_then_hit[OF assms not_digit_HM(2)] by simp
  show ?thesis by (simp only: match_PT_def a h m option.case prod.case)
qed

lemma match_bare: "match_PT ''PT'' = Some (None, None)"
  by (simp add: match_PT_def digits_then_Nil)

text \<open>Sums and products of natural numbers that stay within \<open>2 ^ 53\<close> are exact.\<close>

lemma exact_add:
  assumes "exact_naturals to_double" and "a + b \<le> 2 ^ 53"
  shows "num_add to_double (Num (real a)) (Num (real b)) = Num (real (a + b))"
proof -
  from assms have "to_double (real (a + b)) = Num (real (a + b))"
    unfolding exact_naturals_def by blast
  then show ?thesis by simp
qed

lemma exact_mul:
  assumes "exact_naturals to_double" and "a * b \<le> 2 ^ 53"
  shows "num_mul to_double (Num (real a)) (Num (real b)) = Num (real (a * b))"
proof -
  from assms have "to_double (real (a * b)) = Num (real (a * b))"
    unfolding exact_naturals_def by blast
  then show ?thesis by simp
qed

lemma add_duration_exact:
  assumes e: "exact_naturals to_double"
    and m: "match_PT (or_else (duration it) []) = Some (g1, g2)"
    and h: "(case g1 of None \<Rightarrow> Num 0 | Some x \<Rightarrow> parseInt x) = Num (real hv)"
    and mi: "(case g2 of None \<Rightarrow> Num 0 | Some x \<Rightarrow> parseInt x) = Num (real mv)"
    and b: "t + (hv * 60 + mv) \<le> 2 ^ 53"
  shows "add_duration parseInt to_double (Num (real t)) it = Num (real (t + (hv * 60 + mv)))"
proof -
  from b have b1: "hv * 60 \<le> 2 ^ 53" and b2: "hv * 60 + mv \<le> 2 ^ 53" by simp_all
  have s: "Num 60 = Num (real 60)" by simp
  have p: "num_mul to_double (Num (real hv)) (Num 60) = Num (real (hv * 60))"
    unfolding s by (rule exact_mul[OF e b1])
  have q: "num_add to_double (Num (real (hv * 60))) (Num (real mv)) = Num (real (hv * 60 + mv))"
    by (rule exact_add[OF e b2])
  have r: "num_add to_double (Num (real t)) (Num (real (hv * 60 + mv)))
             = Num (real (t + (hv * 60 + mv)))"
    by (rule exact_add[OF e b])
  show ?thesis
    by (simp only: add_duration_def m h mi Let_def option.case prod.case p q r)
qed

lemma duration_tokens:
  assumes e: "exact_naturals to_double" and r: "reads_decimal parseInt"
    and hs: "digits hs" and ms: "digits ms"
  shows "adds_minutes parseInt to_double
           \<lparr>duration = Some (''PT'' @ hs @ ''H'' @ ms @ ''M''), itinerary_segments = segs\<rparr>
           (decimal_value hs * 60 + decimal_value ms)"
    and "adds_minutes parseInt to_double
           \<lparr>duration = Some (''PT'' @ hs @ ''H''), itinerary_segments = segs\<rparr>
           (decimal_value hs * 60)"
    and "adds_minutes parseInt to_double
           \<lparr>duration = Some (''PT'' @ ms @ ''M''), itinerary_segments = segs\<rparr>
           (decimal_value ms)"
proof -
  have z: "Num 0 = Num (real 0)" by simp
  show "adds_minutes parseInt to_double
           \<lparr>duration = Some (''PT'' @ hs @ ''H'' @ ms @ ''M''), itinerary_segments = segs\<rparr>
           (decimal_value hs * 60 + decimal_value ms)"
    unfolding adds_minutes_def
  proof (intro allI impI)
    fix t :: nat
    assume b: "t + (decimal_value hs * 60 + decimal_value ms) \<le> 2 ^ 53"
    then have "decimal_value hs \<le> 2 ^ 53" and "decimal_value ms \<le> 2 ^ 53" by simp_all
    with r hs ms have p: "parseInt hs = Num (real (decimal_value hs))"
      "parseInt ms = Num (real (decimal_value ms))"
      unfolding reads_decimal_def by blast+
    have m: "match_PT (or_else (duration \<lparr>duration = Some (''PT'' @ hs @ ''H'' @ ms @ ''M''),
                 itinerary_segments = segs\<rparr>) []) = Some (Some hs, Some ms)"
      using match_hours_minutes[OF hs ms] by (simp add: or_else_def)
    show "add_duration parseInt to_double (Num (real t))
            \<lparr>duration = Some (''PT'' @ hs @ ''H'' @ ms @ ''M''), itinerary_segments = segs\<rparr>
          = Num (real (t + (decimal_value hs * 60 + decimal_value ms)))"
      by (rule add_duration_exact[OF e m _ _ b]) (simp_all add: p)
  qed
  show "adds_minutes parseInt to_double
           \<lparr>duration = Some (''PT'' @ hs @ ''H''), itinerary_segments = segs\<rparr>
           (decimal_value hs * 60)"
    unfolding adds_minutes_def
  proof (intro allI impI)
    fix t :: nat
    assume b: "t + decimal_value hs * 60 \<le> 2 ^ 53"
    then have "decimal_value hs \<le> 2 ^ 53" by simp
    with r hs have p: "parseInt hs = Num (real (decimal_value hs))"
      unfolding reads_decimal_def by blast
    have m: "match_PT (or_else (duration \<lparr>duration = Some (''PT'' @ hs @ ''H''),
                 itinerary_segments = segs\<rparr>) []) = Some (Some hs, None)"
      using match_hours[OF hs] by (simp add: or_else_def)
    from b have b': "t + (decimal_value hs * 60 + 0) \<le> 2 ^ 53" by simp
    have "add_duration parseInt to_double (Num (real t))
            \<lparr>duration = Some (''PT'' @ hs @ ''H''), itinerary_segments = segs\<rparr>
          = Num (real (t + (decimal_value hs * 60 + 0)))"
      by (rule add_duration_exact[OF e m _ _ b']) (simp_all add: p)
    then show "add_duration parseInt to_double (Num (real t))
            \<lparr>duration = Some (''PT'' @ hs @ ''H''), itinerary_segments = segs\<rparr>
          = Num (real (t + decimal_value hs * 60))"
      by simp
  qed
  show "adds_minutes parseInt to_double
           \<lparr>duration = Some (''PT'' @ ms @ ''M''), itinerary_segments = segs\<rparr>
           (decimal_value ms)"
    unfolding adds_minutes_def
  proof (intro allI impI)
    fix t :: nat
    assume b: "t + decimal_value ms \<le> 2 ^ 53"
    then have "decimal_value ms \<le> 2 ^ 53" by simp
    with r ms have p: "parseInt ms = Num (real (decimal_value ms))"
      unfolding reads_decimal_def by blast
    have m: "match_PT (or_else (duration \<lparr>duration = Some (''PT'' @ ms @ ''M''),
                 itinerary_segments = segs\<rparr>) []) = Some (None, Some ms)"
      using match_minutes[OF ms] by (simp add: or_else_def)
    from b have b': "t + (0 * 60 + decimal_value ms) \<le> 2 ^ 53" by simp
    have "add_duration parseInt to_double (Num (real t))
            \<lparr>duration = Some (''PT'' @ ms @ ''M''), itinerary_segments = segs\<rparr>
          = Num (real (t + (0 * 60 + decimal_value ms)))"
      by (rule add_duration_exact[OF e m _ _ b']) (simp_all add: p)
    then show "add_duration parseInt to_double (Num (real t))
            \<lparr>duration = Some (''PT'' @ ms @ ''M''), itinerary_segments = segs\<rparr>
          = Num (real (t + decimal_value ms))"
      by simp
  qed
qed

lemma duration_bare:
  assumes e: "exact_naturals to_double"
  shows "adds_minutes parseInt to_double \<lparr>duration = Some ''PT'', itinerary_segments = segs\<rparr> 0"
  unfolding adds_minutes_def
proof (intro allI impI)
  fix t :: nat
  assume b: "t + 0 \<le> 2 ^ 53"
  have m: "match_PT (or_else (duration \<lparr>duration = Some ''PT'', itinerary_segments = segs\<rparr>) [])
             = Some (None, None)"
    using match_bare by (simp add: or_else_def)
  from b have b': "t + (0 * 60 + 0) \<le> 2 ^ 53" by simp
  have "add_duration parseInt to_double (Num (real t))
          \<lparr>duration = Some ''PT'', itinerary_segments = segs\<rparr>
        = Num (real (t + (0 * 60 + 0)))"
    by (rule add_duration_exact[OF e m _ _ b']) simp_all
  then show "add_duration parseInt to_double (Num (real t))
          \<lparr>duration = Some ''PT'', itinerary_segments = segs\<rparr> = Num (real (t + 0))"
    by simp
qed

lemma duration_absent:
  "adds_minutes parseInt to_double \<lparr>duration = None, itinerary_segments = segs\<rparr> 0"
  by (simp add: adds_minutes_def add_duration_def or_else_def match_PT_def)

lemma foldl_adds_minutes:
  assumes "list_all2 (adds_minutes parseInt to_double) its ns"
    and "t + sum_list ns \<le> 2 ^ 53"
  shows "foldl (add_duration parseInt to_double) (Num (real t)) its = Num (real (t + sum_list ns))"
  using assms
proof (induction its ns arbitrary: t rule: list_all2_induct)
  case Nil
  show ?case by simp
next
  case (Cons it its n ns)
  from Cons.prems have b1: "t + n \<le> 2 ^ 53" and b2: "(t + n) + sum_list ns \<le> 2 ^ 53"
    by simp_all
  from Cons.hyps(1) b1
  have s: "add_duration parseInt to_double (Num (real t)) it = Num (real (t + n))"
    unfolding adds_minutes_def by blast
  have "foldl (add_duration parseInt to_double) (Num (real t)) (it # its)
          = foldl (add_duration parseInt to_double) (Num (real (t + n))) its"
    by (simp only: foldl_Cons s)
  also have "\<dots> = Num (real ((t + n) + sum_list ns))"
    by (rule Cons.IH[OF b2])
  finally show ?case by (simp add: add.assoc)
qed

lemma getDuration_sum:
  assumes "list_all2 (adds_minutes parseInt to_double) (itineraries offer) ns"
    and "sum_list ns \<le> 2 ^ 53"
  shows "getDuration parseInt to_double offer = Num (real (sum_list ns))"
proof -
  from assms(2) have b: "0 + sum_list ns \<le> 2 ^ 53" by simp
  from foldl_adds_minutes[OF assms(1) b] show ?thesis by (simp add: getDuration_def)
qed

text \<open>The built-ins of the examples are exact on the natural numbers.\<close>

lemma no_rounding_exact: "exact_naturals no_rounding"
  by (simp add: exact_naturals_def no_rounding_def)

lemma decimal_Number_reads: "reads_decimal decimal_Number"
  unfolding reads_decimal_def
proof (intro allI impI)
  fix ds
  assume a: "digits ds \<and> decimal_value ds \<le> 2 ^ 53"
  then obtain c cs where ds: "ds = c # cs" and d: "list_all is_digit (c # cs)"
    by (cases ds) (simp_all add: digits_def)
  from d have "is_digit c" by simp
  then have "c \<noteq> CHR ''-''" by (auto simp add: is_digit_def)
  with d show "decimal_Number ds = Num (real (decimal_value ds))"
    by (simp add: decimal_Number_def ds)
qed

text \<open>
  Claim C7. When every total price reads as a finite number, sorting by \<open>cheapest\<close>
  gives the offers in ascending order of that number: the result is the stable sort by
  price, a rearrangement of the offers. When \<open>getDuration\<close> is a finite number on every
  offer, sorting by \<open>fastest\<close> is the stable sort by \<open>getDuration\<close>. \<open>getDuration\<close> is
  the sum over the itineraries of the minutes that each counts, when that sum is at most
  \<open>2 ^ 53\<close>; with the natural numbers up to \<open>2 ^ 53\<close> exact and read exactly by
  \<open>parseInt\<close>, the duration \<open>PT#H#M\<close> counts \<open>60 * hours + minutes\<close>, a missing
  component counts as zero, and a missing duration adds nothing. When every first
  departure reads as a finite time, sorting by \<open>earliest\<close> is the stable sort by the
  departure time of the first segment of the first itinerary. The sort of
  \<open>filterFlightOffers\<close> is the same one.
\<close>

theorem sortOffers_orders:
  "((\<forall>offer\<in>set offers. finite_number (parseFloat (price_total offer))) \<longrightarrow>
      sortOffers parseFloat parseInt to_double getTime offers ''cheapest''
        = sort_key (\<lambda>offer. value_of (parseFloat (price_total offer))) offers
      \<and> sorted (map (\<lambda>offer. value_of (parseFloat (price_total offer)))
                 (sortOffers parseFloat parseInt to_double getTime offers ''cheapest''))
      \<and> mset (sortOffers parseFloat parseInt to_double getTime offers ''cheapest'') = mset offers)
   \<and> ((\<forall>offer\<in>set offers. finite_number (getDuration parseInt to_double offer)) \<longrightarrow>
      sortOffers parseFloat parseInt to_double getTime offers ''fastest''
        = sort_key (\<lambda>offer. value_of (getDuration parseInt to_double offer)) offers
      \<and> sorted (map (\<lambda>offer. value_of (getDuration parseInt to_double offer))
                 (sortOffers parseFloat parseInt to_double getTime offers ''fastest''))
      \<and> mset (sortOffers parseFloat parseInt to_double getTime offers ''fastest'') = mset offers)
   \<and> (\<forall>offer ns.
         list_all2 (adds_minutes parseInt to_double) (itineraries offer) ns
         \<and> sum_list ns \<le> 2 ^ 53 \<longrightarrow>
         getDuration parseInt to_double offer = Num (real (sum_list ns)))
   \<and> (\<forall>hs ms segs.
         exact_naturals to_double \<and> reads_decimal parseInt \<and> digits hs \<and> digits ms \<longrightarrow>
         adds_minutes parseInt to_double
           \<lparr>duration = Some (''PT'' @ hs @ ''H'' @ ms @ ''M''), itinerary_segments = segs\<rparr>
           (decimal_value hs * 60 + decimal_value ms)
         \<and> adds_minutes parseInt to_double
             \<lparr>duration = Some (''PT'' @ hs @ ''H''), itinerary_segments = segs\<rparr>
             (decimal_value hs * 60)
         \<and> adds_minutes parseInt to_double
             \<lparr>duration = Some (''PT'' @ ms @ ''M''), itinerary_segments = segs\<rparr>
             (decimal_value ms))
   \<and> (\<forall>segs.
         exact_naturals to_double \<longrightarrow>
         adds_minutes parseInt to_double
           \<lparr>duration = Some ''PT'', itinerary_segments = segs\<rparr> 0)
   \<and> (\<forall>segs running_total.
         add_duration parseInt to_double running_total \<lparr>duration = None, itinerary_segments = segs\<rparr>
           = running_total)
   \<and> ((\<forall>offer\<in>set offers. finite_number (departure_time getTime offer)) \<longrightarrow>
      sortOffers parseFloat parseInt to_double getTime offers ''earliest''
        = sort_key (\<lambda>offer. value_of (departure_time getTime offer)) offers
      \<and> sorted (map (\<lambda>offer. value_of (departure_time getTime offer))
                 (sortOffers parseFloat parseInt to_double getTime offers ''earliest''))
      \<and> mset (sortOffers parseFloat parseInt to_double getTime offers ''earliest'') = mset offers)
   \<and> (\<forall>offer it its sg sgs.
         itineraries offer = it # its \<and> itinerary_segments it = sg # sgs
         \<and> departure_at sg \<noteq> [] \<longrightarrow>
         departure_time getTime offer = getTime (departure_at sg))
   \<and> (\<forall>s. s = ''cheapest'' \<or> s = ''fastest'' \<or> s = ''earliest'' \<longrightarrow>
         filterFlightOffers toUpperCase parseFloat parseInt to_double getTime offers
           \<lparr>airlines = None, stops = None, sortBy = Some s\<rparr>
         = sortOffers parseFloat parseInt to_double getTime offers s)"
proof -
  have c: "(\<forall>offer\<in>set offers. finite_number (parseFloat (price_total offer))) \<longrightarrow>
      sortOffers parseFloat parseInt to_double getTime offers ''cheapest''
        = sort_key (\<lambda>offer. value_of (parseFloat (price_total offer))) offers
      \<and> sorted (map (\<lambda>offer. value_of (parseFloat (price_total offer)))
                 (sortOffers parseFloat parseInt to_double getTime offers ''cheapest''))
      \<and> mset (sortOffers parseFloat parseInt to_double getTime offers ''cheapest'') = mset offers"
  proof
    assume "\<forall>offer\<in>set offers. finite_number (parseFloat (price_total offer))"
    then have e: "sortOffers parseFloat parseInt to_double getTime offers ''cheapest''
        = sort_key (\<lambda>offer. value_of (parseFloat (price_total offer))) offers"
      by (rule sortOffers_cheapest)
    show "sortOffers parseFloat parseInt to_double getTime offers ''cheapest''
        = sort_key (\<lambda>offer. value_of (parseFloat (price_total offer))) offers
      \<and> sorted (map (\<lambda>offer. value_of (parseFloat (price_total offer)))
                 (sortOffers parseFloat parseInt to_double getTime offers ''cheapest''))
      \<and> mset (sortOffers parseFloat parseInt to_double getTime offers ''cheapest'') = mset offers"
      by (simp only: e sorted_sort_key mset_sort simp_thms)
  qed
  have f: "(\<forall>offer\<in>set offers. finite_number (getDuration parseInt to_double offer)) \<longrightarrow>
      sortOffers parseFloat parseInt to_double getTime offers ''fastest''
        = sort_key (\<lambda>offer. value_of (getDuration parseInt to_double offer)) offers
      \<and> sorted (map (\<lambda>offer. value_of (getDuration parseInt to_double offer))
                 (sortOffers parseFloat parseInt to_double getTime offers ''fastest''))
      \<and> mset (sortOffers parseFloat parseInt to_double getTime offers ''fastest'') = mset offers"
  proof
    assume "\<forall>offer\<in>set offers. finite_number (getDuration parseInt to_double offer)"
    then have e: "sortOffers parseFloat parseInt to_double getTime offers ''fastest''
        = sort_key (\<lambda>offer. value_of (getDuration parseInt to_double offer)) offers"
      by (rule sortOffers_fastest)
    show "sortOffers parseFloat parseInt to_double getTime offers ''fastest''
        = sort_key (\<lambda>offer. value_of (getDuration parseInt to_double offer)) offers
      \<and> sorted (map (\<lambda>offer. value_of (getDuration parseInt to_double offer))
                 (sortOffers parseFloat parseInt to_double getTime offers ''fastest''))
      \<and> mset (sortOffers parseFloat parseInt to_double getTime offers ''fastest'') = mset offers"
      by (simp only: e sorted_sort_key mset_sort simp_thms)
  qed
  have g: "\<forall>offer ns.
         list_all2 (adds_minutes parseInt to_double) (itineraries offer) ns
         \<and> sum_list ns \<le> 2 ^ 53 \<longrightarrow>
         getDuration parseInt to_double offer = Num (real (sum_list ns))"
    using getDuration_sum by blast
  have t: "\<forall>hs ms segs.
         exact_naturals to_double \<and> reads_decimal parseInt \<and> digits hs \<and> digits ms \<longrightarrow>
         adds_minutes parseInt to_double
           \<lparr>duration = Some (''PT'' @ hs @ ''H'' @ ms @ ''M''), itinerary_segments = segs\<rparr>
           (decimal_value hs * 60 + decimal_value ms)
         \<and> adds_minutes parseInt to_double
             \<lparr>duration = Some (''PT'' @ hs @ ''H''), itinerary_segments = segs\<rparr>
             (decimal_value hs * 60)
         \<and> adds_minutes parseInt to_double
             \<lparr>duration = Some (''PT'' @ ms @ ''M''), itinerary_segments = segs\<rparr>
             (decimal_value ms)"
    using duration_tokens by blast
  have a: "\<forall>segs.
         exact_naturals to_double \<longrightarrow>
         adds_minutes parseInt to_double
           \<lparr>duration = Some ''PT'', itinerary_segments = segs\<rparr> 0"
    using duration_bare by blast
  have n: "\<forall>segs running_total.
         add_duration parseInt to_double running_total \<lparr>duration = None, itinerary_segments = segs\<rparr>
           = running_total"
    by (simp add: add_duration_def or_else_def match_PT_def)
  have e: "(\<forall>offer\<in>set offers. finite_number (departure_time getTime offer)) \<longrightarrow>
      sortOffers parseFloat parseInt to_double getTime offers ''earliest''
        = sort_key (\<lambda>offer. value_of (departure_time getTime offer)) offers
      \<and> sorted (map (\<lambda>offer. value_of (departure_time getTime offer))
                 (sortOffers parseFloat parseInt to_double getTime offers ''earliest''))
      \<and> mset (sortOffers parseFloat parseInt to_double getTime offers ''earliest'') = mset offers"
  proof
    assume "\<forall>offer\<in>set offers. finite_number (departure_time getTime offer)"
    then have e: "sortOffers parseFloat parseInt to_double getTime offers ''earliest''
        = sort_key (\<lambda>offer. value_of (departure_time getTime offer)) offers"
      by (rule sortOffers_earliest)
    show "sortOffers parseFloat parseInt to_double getTime offers ''earliest''
        = sort_key (\<lambda>offer. value_of (departure_time getTime offer)) offers
      \<and> sorted (map (\<lambda>offer. value_of (departure_time getTime offer))
                 (sortOffers parseFloat parseInt to_double getTime offers ''earliest''))
      \<and> mset (sortOffers parseFloat parseInt to_double getTime offers ''earliest'') = mset offers"
      by (simp only: e sorted_sort_key mset_sort simp_thms)
  qed
  have d: "\<forall>offer it its sg sgs.
         itineraries offer = it # its \<and> itinerary_segments it = sg # sgs
         \<and> departure_at sg \<noteq> [] \<longrightarrow>
         departure_time getTime offer = getTime (departure_at sg)"
    by (simp add: departure_time_def)
  have u: "\<forall>s. s = ''cheapest'' \<or> s = ''fastest'' \<or> s = ''earliest'' \<longrightarrow>
         filterFlightOffers toUpperCase parseFloat parseInt to_double getTime offers
           \<lparr>airlines = None, stops = None, sortBy = Some s\<rparr>
         = sortOffers parseFloat parseInt to_double getTime offers s"
  proof (intro allI impI)
    fix s :: string
    assume "s = ''cheapest'' \<or> s = ''fastest'' \<or> s = ''earliest''"
    then show "filterFlightOffers toUpperCase parseFloat parseInt to_double getTime offers
           \<lparr>airlines = None, stops = None, sortBy = Some s\<rparr>
         = sortOffers parseFloat parseInt to_double getTime offers s"
      by (elim disjE) (simp_all add: filterFlightOffers_def truthy_def or_else_def)
  qed
  show ?thesis by (intro conjI c f g t a n e d u)
qed

theorem sortOffers_orders_witness:
  "sortOffers decimal_Number decimal_Number no_rounding decimal_Number
     [priced ''a'' ''500'', priced ''b'' ''200'', priced ''c'' ''800''] ''cheapest''
   = [priced ''b'' ''200'', priced ''a'' ''500'', priced ''c'' ''800'']
   \<and> sortOffers decimal_Number decimal_Number no_rounding decimal_Number
     [timed ''s'' ''PT9H'', timed ''q'' ''PT6H30M''] ''fastest''
   = [timed ''q'' ''PT6H30M'', timed ''s'' ''PT9H'']"
proof
  let ?offers = "[priced ''a'' ''500'', priced ''b'' ''200'', priced ''c'' ''800'']"
  have p: "decimal_Number ''500'' = Num 500" "decimal_Number ''200'' = Num 200"
    "decimal_Number ''800'' = Num 800"
    by (simp_all add: decimal_Number_def is_digit_def decimal_value_def digit_value_def)
  have v: "value_of (decimal_Number (price_total (priced ''a'' ''500''))) = 500"
    "value_of (decimal_Number (price_total (priced ''b'' ''200''))) = 200"
    "value_of (decimal_Number (price_total (priced ''c'' ''800''))) = 800"
    by (simp_all add: priced_def p)
  have f: "\<forall>offer\<in>set ?offers. finite_number (decimal_Number (price_total offer))"
    by (simp add: priced_def p)
  have "(\<forall>offer\<in>set ?offers. finite_number (decimal_Number (price_total offer))) \<longrightarrow>
      sortOffers decimal_Number decimal_Number no_rounding decimal_Number ?offers ''cheapest''
        = sort_key (\<lambda>offer. value_of (decimal_Number (price_total offer))) ?offers
      \<and> sorted (map (\<lambda>offer. value_of (decimal_Number (price_total offer)))
                 (sortOffers decimal_Number decimal_Number no_rounding decimal_Number
                    ?offers ''cheapest''))
      \<and> mset (sortOffers decimal_Number decimal_Number no_rounding decimal_Number
                 ?offers ''cheapest'') = mset ?offers"
    using sortOffers_orders
            [where offers = ?offers and toUpperCase = ascii_toUpperCase
               and parseFloat = decimal_Number and parseInt = decimal_Number
               and to_double = no_rounding and getTime = decimal_Number]
    by (elim conjE)
  with f have "sortOffers decimal_Number decimal_Number no_rounding decimal_Number
                 ?offers ''cheapest''
        = sort_key (\<lambda>offer. value_of (decimal_Number (price_total offer))) ?offers"
    by blast
  also have "\<dots> = [priced ''b'' ''200'', priced ''a'' ''500'', priced ''c'' ''800'']"
    by (simp add: v)
  finally show "sortOffers decimal_Number decimal_Number no_rounding decimal_Number
                  ?offers ''cheapest''
        = [priced ''b'' ''200'', priced ''a'' ''500'', priced ''c'' ''800'']" .
next
  let ?timed = "[timed ''s'' ''PT9H'', timed ''q'' ''PT6H30M'']"
  let ?D = "getDuration decimal_Number no_rounding"
  note th = sortOffers_orders
            [where offers = ?timed and toUpperCase = ascii_toUpperCase
               and parseFloat = decimal_Number and parseInt = decimal_Number
               and to_double = no_rounding and getTime = decimal_Number]
  have dg: "digits ''9''" "digits ''6''" "digits ''30''"
    by (simp_all add: digits_def is_digit_def)
  have dv: "decimal_value ''9'' = 9" "decimal_value ''6'' = 6" "decimal_value ''30'' = 30"
    by (simp_all add: decimal_value_def digit_value_def)
  have tk: "\<forall>hs ms segs.
         exact_naturals no_rounding \<and> reads_decimal decimal_Number \<and> digits hs \<and> digits ms \<longrightarrow>
         adds_minutes decimal_Number no_rounding
           \<lparr>duration = Some (''PT'' @ hs @ ''H'' @ ms @ ''M''), itinerary_segments = segs\<rparr>
           (decimal_value hs * 60 + decimal_value ms)
         \<and> adds_minutes decimal_Number no_rounding
             \<lparr>duration = Some (''PT'' @ hs @ ''H''), itinerary_segments = segs\<rparr>
             (decimal_value hs * 60)
         \<and> adds_minutes decimal_Number no_rounding
             \<lparr>duration = Some (''PT'' @ ms @ ''M''), itinerary_segments = segs\<rparr>
             (decimal_value ms)"
    using th by (elim conjE)
  from tk no_rounding_exact decimal_Number_reads dg(1)
  have "adds_minutes decimal_Number no_rounding
          \<lparr>duration = Some (''PT'' @ ''9'' @ ''H''), itinerary_segments = []\<rparr>
          (decimal_value ''9'' * 60)"
    by blast
  then have m9: "adds_minutes decimal_Number no_rounding
          \<lparr>duration = Some ''PT9H'', itinerary_segments = []\<rparr> 540"
    by (simp add: dv)
  from tk no_rounding_exact decimal_Number_reads dg(2,3)
  have "adds_minutes decimal_Number no_rounding
          \<lparr>duration = Some (''PT'' @ ''6'' @ ''H'' @ ''30'' @ ''M''), itinerary_segments = []\<rparr>
          (decimal_value ''6'' * 60 + decimal_value ''30'')"
    by blast
  then have m6: "adds_minutes decimal_Number no_rounding
          \<lparr>duration = Some ''PT6H30M'', itinerary_segments = []\<rparr> 390"
    by (simp add: dv)
  have sm: "\<forall>offer ns.
         list_all2 (adds_minutes decimal_Number no_rounding) (itineraries offer) ns
         \<and> sum_list ns \<le> 2 ^ 53 \<longrightarrow>
         ?D offer = Num (real (sum_list ns))"
    using th by (elim conjE)
  have l9: "list_all2 (adds_minutes decimal_Number no_rounding)
               (itineraries (timed ''s'' ''PT9H'')) [540]"
    using m9 by (simp add: timed_def)
  have l6: "list_all2 (adds_minutes decimal_Number no_rounding)
               (itineraries (timed ''q'' ''PT6H30M'')) [390]"
    using m6 by (simp add: timed_def)
  have b: "sum_list [540::nat] \<le> 2 ^ 53" "sum_list [390::nat] \<le> 2 ^ 53" by simp_all
  from sm l9 b(1) have "?D (timed ''s'' ''PT9H'') = Num (real (sum_list [540]))" by blast
  then have d9: "?D (timed ''s'' ''PT9H'') = Num 540" by simp
  from sm l6 b(2) have "?D (timed ''q'' ''PT6H30M'') = Num (real (sum_list [390]))" by blast
  then have d6: "?D (timed ''q'' ''PT6H30M'') = Num 390" by simp
  have f: "\<forall>offer\<in>set ?timed. finite_number (?D offer)"
    by (simp add: d9 d6)
  have "(\<forall>offer\<in>set ?timed. finite_number (?D offer)) \<longrightarrow>
      sortOffers decimal_Number decimal_Number no_rounding decimal_Number ?timed ''fastest''
        = sort_key (\<lambda>offer. value_of (?D offer)) ?timed
      \<and> sorted (map (\<lambda>offer. value_of (?D offer))
                 (sortOffers decimal_Number decimal_Number no_rounding decimal_Number
                    ?timed ''fastest''))
      \<and> mset (sortOffers decimal_Number decimal_Number no_rounding decimal_Number
                 ?timed ''fastest'') = mset ?timed"
    using th by (elim conjE)
  with f have "sortOffers decimal_Number decimal_Number no_rounding decimal_Number
                 ?timed ''fastest''
        = sort_key (\<lambda>offer. value_of (?D offer)) ?timed"
    by blast
  also have "\<dots> = [timed ''q'' ''PT6H30M'', timed ''s'' ''PT9H'']"
    by (simp add: d9 d6)
  finally show "sortOffers decimal_Number decimal_Number no_rounding decimal_Number
                  ?timed ''fastest''
        = [timed ''q'' ''PT6H30M'', timed ''s'' ''PT9H'']" .
qed

end
